theory Spec2Isabelle
  imports Complex_Main
begin

section \<open>The fading-memory Kalman filter of filterpy (kalman/fading\_memory.py)\<close>

text \<open>
  The embedding follows the Python class \<open>FadingKalmanFilter\<close> method by method.
  Modelling decisions:
  \<^item> Numbers are exact reals in place of IEEE doubles.
  \<^item> A value that the filter computes with is either a number (\<open>Num\<close>: a Python
    number such as the placeholders \<open>F = 0\<close>, \<open>H = 0\<close>, \<open>B = 0\<close>, or the
    scalar a numpy operation returns) or a two-dimensional numpy array (\<open>Arr\<close>, the list
    of its rows). A well-formed array has rows of one length; an array without rows has
    shape \<open>(0, 0)\<close>.
  \<^item> \<open>+\<close>, \<open>-\<close> and \<open>*\<close> broadcast as numpy does, \<open>dot\<close> multiplies by a scalar
    when one operand is a number and is the matrix product otherwise, and every shape
    error is the value \<open>Inl ValueError\<close>.
  \<^item> \<open>.T\<close> on a Python number raises \<open>AttributeError\<close>.
  \<^item> A method of the class takes the object and returns the pair of its outcome and
    the object as the call leaves it, so that fields assigned before an exception is
    raised stay assigned.
  \<^item> \<open>scipy.linalg.inv\<close> is a library outside the repository; its LAPACK core is the
    parameter \<open>minv\<close> of the methods that call it (\<open>None\<close> for a singular matrix).
  \<^item> \<open>numpy.size\<close> of a list makes an array of it first; which lists numpy makes an
    array of depends on its version, and is the parameter \<open>accepts\<close> of
    \<open>batch_filter\<close>.
\<close>

subsection \<open>Values and numpy operations\<close>

datatype error = AssertionError | AttributeError | ValueError | LinAlgError | IndexError

datatype ndarray = Num real | Arr "real list list"

type_synonym matrix = "real list list"

definition nrows :: "matrix \<Rightarrow> nat" where
  "nrows m = length m"

definition ncols :: "matrix \<Rightarrow> nat" where
  "ncols m = (case m of [] \<Rightarrow> 0 | r # _ \<Rightarrow> length r)"

text \<open>The array with \<open>r\<close> rows and \<open>c\<close> columns whose entry \<open>(i, j)\<close> is \<open>f i j\<close>.\<close>

definition tabulate2 :: "nat \<Rightarrow> nat \<Rightarrow> (nat \<Rightarrow> nat \<Rightarrow> real) \<Rightarrow> matrix" where
  "tabulate2 r c f = map (\<lambda>i. map (\<lambda>j. f i j) [0..<c]) [0..<r]"

text \<open>\<open>numpy.zeros((r, c))\<close> and \<open>numpy.eye(n)\<close>; a negative dimension raises.\<close>

definition zeros :: "int \<Rightarrow> int \<Rightarrow> error + ndarray" where
  "zeros r c =
     (if r < 0 \<or> c < 0 then Inl ValueError
      else Inr (Arr (tabulate2 (nat r) (nat c) (\<lambda>i j. 0))))"

definition eye :: "int \<Rightarrow> error + ndarray" where
  "eye n =
     (if n < 0 then Inl ValueError
      else Inr (Arr (tabulate2 (nat n) (nat n) (\<lambda>i j. if i = j then 1 else 0))))"

text \<open>
  Broadcasting of one axis: two lengths are compatible when they are equal or one of
  them is 1; an axis of length 1 is read at index 0 everywhere.
\<close>

definition bdim :: "nat \<Rightarrow> nat \<Rightarrow> nat option" where
  "bdim a b = (if a = b then Some a else if a = 1 then Some b
               else if b = 1 then Some a else None)"

definition bidx :: "nat \<Rightarrow> nat \<Rightarrow> nat" where
  "bidx d i = (if d = 1 then 0 else i)"

definition bget :: "matrix \<Rightarrow> nat \<Rightarrow> nat \<Rightarrow> real" where
  "bget m i j = m ! bidx (nrows m) i ! bidx (ncols m) j"

fun elementwise :: "(real \<Rightarrow> real \<Rightarrow> real) \<Rightarrow> ndarray \<Rightarrow> ndarray \<Rightarrow> error + ndarray" where
  "elementwise f (Num p) (Num q) = Inr (Num (f p q))"
| "elementwise f (Num p) (Arr n) = Inr (Arr (map (map (\<lambda>v. f p v)) n))"
| "elementwise f (Arr m) (Num q) = Inr (Arr (map (map (\<lambda>v. f v q)) m))"
| "elementwise f (Arr m) (Arr n) =
     (case bdim (nrows m) (nrows n) of
        None \<Rightarrow> Inl ValueError
      | Some r \<Rightarrow>
          (case bdim (ncols m) (ncols n) of
             None \<Rightarrow> Inl ValueError
           | Some c \<Rightarrow> Inr (Arr (tabulate2 r c (\<lambda>i j. f (bget m i j) (bget n i j))))))"

definition np_add :: "ndarray \<Rightarrow> ndarray \<Rightarrow> error + ndarray" where
  "np_add = elementwise (\<lambda>a b. a + b)"

definition np_sub :: "ndarray \<Rightarrow> ndarray \<Rightarrow> error + ndarray" where
  "np_sub = elementwise (\<lambda>a b. a - b)"

definition np_mul :: "ndarray \<Rightarrow> ndarray \<Rightarrow> error + ndarray" where
  "np_mul = elementwise (\<lambda>a b. a * b)"

definition matmul :: "matrix \<Rightarrow> matrix \<Rightarrow> matrix" where
  "matmul m n =
     tabulate2 (nrows m) (ncols n) (\<lambda>i j. \<Sum>k\<leftarrow>[0..<ncols m]. m ! i ! k * n ! k ! j)"

text \<open>\<open>numpy.dot\<close> on numbers and two-dimensional arrays.\<close>

fun dot :: "ndarray \<Rightarrow> ndarray \<Rightarrow> error + ndarray" where
  "dot (Num p) (Num q) = Inr (Num (p * q))"
| "dot (Num p) (Arr n) = Inr (Arr (map (map (\<lambda>v. p * v)) n))"
| "dot (Arr m) (Num q) = Inr (Arr (map (map (\<lambda>v. v * q)) m))"
| "dot (Arr m) (Arr n) =
     (if ncols m = nrows n then Inr (Arr (matmul m n)) else Inl ValueError)"

text \<open>
  Modelled from the spec: \<open>dot3\<close> is imported from \<open>filterpy.common\<close>, which is not
  among the sources; the spec writes its result as the product \<open>A\<cdot>B\<cdot>C\<close>. It is taken
  as \<open>dot(A, dot(B, C))\<close>.
\<close>

definition dot3 :: "ndarray \<Rightarrow> ndarray \<Rightarrow> ndarray \<Rightarrow> error + ndarray" where
  "dot3 A B C = (case dot B C of Inl e \<Rightarrow> Inl e | Inr BC \<Rightarrow> dot A BC)"

text \<open>The attribute \<open>.T\<close>: a Python number has none, an array is transposed.\<close>

fun arr_T :: "ndarray \<Rightarrow> error + ndarray" where
  "arr_T (Num p) = Inl AttributeError"
| "arr_T (Arr m) = Inr (Arr (tabulate2 (ncols m) (nrows m) (\<lambda>i j. m ! j ! i)))"

text \<open>
  \<open>scipy.linalg.inv\<close>: rejects what is not a square two-dimensional array with
  \<open>ValueError\<close>, and raises \<open>LinAlgError\<close> when the factorisation finds the matrix
  singular.
\<close>

fun linalg_inv :: "(matrix \<Rightarrow> matrix option) \<Rightarrow> ndarray \<Rightarrow> error + ndarray" where
  "linalg_inv minv (Num p) = Inl ValueError"
| "linalg_inv minv (Arr m) =
     (if nrows m \<noteq> ncols m then Inl ValueError
      else (case minv m of None \<Rightarrow> Inl LinAlgError | Some mi \<Rightarrow> Inr (Arr mi)))"

subsection \<open>The filter object\<close>

record FadingKalmanFilter =
  alpha_sq :: real
  dim_x :: int
  dim_z :: int
  dim_u :: int
  self_x :: ndarray
  self_P :: ndarray
  self_Q :: ndarray
  self_B :: ndarray
  self_F :: ndarray
  self_H :: ndarray
  self_R :: ndarray
  self_K :: ndarray
  self_y :: ndarray
  self_S :: ndarray
  self_I :: ndarray

type_synonym 'r call = "(error + 'r) \<times> FadingKalmanFilter"

text \<open>
  \<open>__init__(alpha, dim_x, dim_z, dim_u)\<close>. The four \<open>assert\<close> statements raise
  \<open>AssertionError\<close> (the spec's \<open>InvalidParameter\<close>).
\<close>

definition init :: "real \<Rightarrow> int \<Rightarrow> int \<Rightarrow> int \<Rightarrow> error + FadingKalmanFilter" where
  "init alpha dx dz du =
     (if \<not> alpha \<ge> 1 then Inl AssertionError
      else if \<not> dx > 0 then Inl AssertionError
      else if \<not> dz > 0 then Inl AssertionError
      else if \<not> du \<ge> 0 then Inl AssertionError
      else
       (case zeros dx 1 of Inl e \<Rightarrow> Inl e | Inr x0 \<Rightarrow>
       (case eye dx of Inl e \<Rightarrow> Inl e | Inr P0 \<Rightarrow>
       (case eye dx of Inl e \<Rightarrow> Inl e | Inr Q0 \<Rightarrow>
       (case eye dz of Inl e \<Rightarrow> Inl e | Inr R0 \<Rightarrow>
       (case zeros dz 1 of Inl e \<Rightarrow> Inl e | Inr y0 \<Rightarrow>
       (case eye dx of Inl e \<Rightarrow> Inl e | Inr I0 \<Rightarrow>
          Inr \<lparr> alpha_sq = alpha ^ 2, dim_x = dx, dim_z = dz, dim_u = du,
                self_x = x0, self_P = P0, self_Q = Q0,
                self_B = Num 0, self_F = Num 0, self_H = Num 0,
                self_R = R0, self_K = Num 0, self_y = y0, self_S = Num 0,
                self_I = I0 \<rparr>)))))))"

text \<open>
  The measurement noise of one \<open>update\<close> call: \<open>None\<close> is the stored \<open>R\<close>, a scalar
  \<open>r\<close> is \<open>eye(dim_z) * r\<close>, an array is used as it is.
\<close>

fun resolve_R :: "ndarray option \<Rightarrow> FadingKalmanFilter \<Rightarrow> error + ndarray" where
  "resolve_R None s = Inr (self_R s)"
| "resolve_R (Some (Num r)) s =
     (case eye (dim_z s) of Inl e \<Rightarrow> Inl e | Inr E \<Rightarrow> np_mul E (Num r))"
| "resolve_R (Some (Arr m)) s = Inr (Arr m)"

text \<open>\<open>update(z, R)\<close>; \<open>z = None\<close> returns at once.\<close>

definition update ::
  "(matrix \<Rightarrow> matrix option) \<Rightarrow> ndarray option \<Rightarrow> ndarray option \<Rightarrow>
   FadingKalmanFilter \<Rightarrow> unit call" where
  "update minv z R s =
     (case z of
        None \<Rightarrow> (Inr (), s)
      | Some zv \<Rightarrow>
       (case resolve_R R s of Inl e \<Rightarrow> (Inl e, s) | Inr Rv \<Rightarrow>
       (let H = self_H s; P = self_P s; x = self_x s in
       (case dot H x of Inl e \<Rightarrow> (Inl e, s) | Inr Hx \<Rightarrow>
       (case np_sub zv Hx of Inl e \<Rightarrow> (Inl e, s) | Inr y \<Rightarrow>
       (let s1 = s\<lparr>self_y := y\<rparr> in
       (case arr_T H of Inl e \<Rightarrow> (Inl e, s1) | Inr Ht \<Rightarrow>
       (case dot3 H P Ht of Inl e \<Rightarrow> (Inl e, s1) | Inr HPHt \<Rightarrow>
       (case np_add HPHt Rv of Inl e \<Rightarrow> (Inl e, s1) | Inr S \<Rightarrow>
       (case linalg_inv minv S of Inl e \<Rightarrow> (Inl e, s1) | Inr Si \<Rightarrow>
       (case dot3 P Ht Si of Inl e \<Rightarrow> (Inl e, s1) | Inr K \<Rightarrow>
       (case dot K (self_y s1) of Inl e \<Rightarrow> (Inl e, s1) | Inr Ky \<Rightarrow>
       (case np_add x Ky of Inl e \<Rightarrow> (Inl e, s1) | Inr x' \<Rightarrow>
       (let s2 = s1\<lparr>self_x := x'\<rparr> in
       (case dot K H of Inl e \<Rightarrow> (Inl e, s2) | Inr KH \<Rightarrow>
       (case np_sub (self_I s2) KH of Inl e \<Rightarrow> (Inl e, s2) | Inr I_KH \<Rightarrow>
       (case arr_T I_KH of Inl e \<Rightarrow> (Inl e, s2) | Inr I_KHt \<Rightarrow>
       (case dot3 I_KH P I_KHt of Inl e \<Rightarrow> (Inl e, s2) | Inr J \<Rightarrow>
       (case arr_T K of Inl e \<Rightarrow> (Inl e, s2) | Inr Kt \<Rightarrow>
       (case dot3 K Rv Kt of Inl e \<Rightarrow> (Inl e, s2) | Inr KRKt \<Rightarrow>
       (case np_add J KRKt of Inl e \<Rightarrow> (Inl e, s2) | Inr P' \<Rightarrow>
          (Inr (), s2\<lparr>self_P := P', self_S := S, self_K := K\<rparr>)
       )))))))))))))))))))))"

text \<open>\<open>predict(u)\<close>; the default of \<open>u\<close> is the number 0.\<close>

definition predict :: "ndarray \<Rightarrow> FadingKalmanFilter \<Rightarrow> unit call" where
  "predict u s =
     (case dot (self_F s) (self_x s) of Inl e \<Rightarrow> (Inl e, s) | Inr Fx \<Rightarrow>
     (case dot (self_B s) u of Inl e \<Rightarrow> (Inl e, s) | Inr Bu \<Rightarrow>
     (case np_add Fx Bu of Inl e \<Rightarrow> (Inl e, s) | Inr x' \<Rightarrow>
     (let s1 = s\<lparr>self_x := x'\<rparr> in
     (case arr_T (self_F s1) of Inl e \<Rightarrow> (Inl e, s1) | Inr Ft \<Rightarrow>
     (case dot3 (self_F s1) (self_P s1) Ft of Inl e \<Rightarrow> (Inl e, s1) | Inr FPFt \<Rightarrow>
     (case np_mul (Num (alpha_sq s1)) FPFt of Inl e \<Rightarrow> (Inl e, s1) | Inr aFPFt \<Rightarrow>
     (case np_add aFPFt (self_Q s1) of Inl e \<Rightarrow> (Inl e, s1) | Inr P' \<Rightarrow>
        (Inr (), s1\<lparr>self_P := P'\<rparr>)
     ))))))))"




subsection \<open>Batch processing\<close>

text \<open>
  The three-dimensional arrays that \<open>batch_filter\<close> returns are lists of
  two-dimensional arrays. \<open>zeros3 n r c\<close> is \<open>zeros((n, r, c))\<close>.
  \<open>setitem r c A i v\<close> is the slice assignment \<open>A[i,:] = v\<close> into an array whose
  entries have shape \<open>(r, c)\<close>: numpy copies \<open>v\<close> into the slice, broadcasting it to
  the shape of the slice, and raises when \<open>v\<close> does not broadcast to it.
\<close>

definition zeros3 :: "int \<Rightarrow> int \<Rightarrow> int \<Rightarrow> error + ndarray list" where
  "zeros3 n r c =
     (if n < 0 \<or> r < 0 \<or> c < 0 then Inl ValueError
      else Inr (replicate (nat n) (Arr (tabulate2 (nat r) (nat c) (\<lambda>i j. 0)))))"

fun broadcast_to :: "nat \<Rightarrow> nat \<Rightarrow> ndarray \<Rightarrow> error + ndarray" where
  "broadcast_to r c (Num p) = Inr (Arr (tabulate2 r c (\<lambda>i j. p)))"
| "broadcast_to r c (Arr m) =
     (if (nrows m = r \<or> nrows m = 1) \<and> (ncols m = c \<or> ncols m = 1)
      then Inr (Arr (tabulate2 r c (\<lambda>i j. bget m i j)))
      else Inl ValueError)"

definition setitem :: "nat \<Rightarrow> nat \<Rightarrow> ndarray list \<Rightarrow> nat \<Rightarrow> ndarray \<Rightarrow> error + ndarray list" where
  "setitem r c A i v =
     (if length A \<le> i then Inl IndexError
      else (case broadcast_to r c v of Inl e \<Rightarrow> Inl e | Inr w \<Rightarrow> Inr (A[i := w])))"

type_synonym outputs = "ndarray list \<times> ndarray list \<times> ndarray list \<times> ndarray list"

text \<open>
  The two loops of \<open>batch_filter\<close> over \<open>enumerate(zip(zs, Rs))\<close>; \<open>dx\<close> is the
  \<open>dim_x\<close> with which the output arrays were allocated and \<open>i\<close> the running index.
\<close>

fun loop_update_first ::
  "(matrix \<Rightarrow> matrix option) \<Rightarrow> nat \<Rightarrow> nat \<Rightarrow> (ndarray option \<times> ndarray option) list \<Rightarrow>
   outputs \<Rightarrow> FadingKalmanFilter \<Rightarrow> outputs call" where
  "loop_update_first minv dx i [] out s = (Inr out, s)"
| "loop_update_first minv dx i ((z, r) # zrs) (means, covariances, means_p, covariances_p) s =
     (case update minv z r s of (Inl e, s1) \<Rightarrow> (Inl e, s1) | (Inr _, s1) \<Rightarrow>
     (case setitem dx 1 means i (self_x s1) of Inl e \<Rightarrow> (Inl e, s1) | Inr means' \<Rightarrow>
     (case setitem dx dx covariances i (self_P s1) of Inl e \<Rightarrow> (Inl e, s1) | Inr covariances' \<Rightarrow>
     (case predict (Num 0) s1 of (Inl e, s2) \<Rightarrow> (Inl e, s2) | (Inr _, s2) \<Rightarrow>
     (case setitem dx 1 means_p i (self_x s2) of Inl e \<Rightarrow> (Inl e, s2) | Inr means_p' \<Rightarrow>
     (case setitem dx dx covariances_p i (self_P s2) of Inl e \<Rightarrow> (Inl e, s2) | Inr covariances_p' \<Rightarrow>
        loop_update_first minv dx (Suc i) zrs
          (means', covariances', means_p', covariances_p') s2))))))"

fun loop_predict_first ::
  "(matrix \<Rightarrow> matrix option) \<Rightarrow> nat \<Rightarrow> nat \<Rightarrow> (ndarray option \<times> ndarray option) list \<Rightarrow>
   outputs \<Rightarrow> FadingKalmanFilter \<Rightarrow> outputs call" where
  "loop_predict_first minv dx i [] out s = (Inr out, s)"
| "loop_predict_first minv dx i ((z, r) # zrs) (means, covariances, means_p, covariances_p) s =
     (case predict (Num 0) s of (Inl e, s1) \<Rightarrow> (Inl e, s1) | (Inr _, s1) \<Rightarrow>
     (case setitem dx 1 means_p i (self_x s1) of Inl e \<Rightarrow> (Inl e, s1) | Inr means_p' \<Rightarrow>
     (case setitem dx dx covariances_p i (self_P s1) of Inl e \<Rightarrow> (Inl e, s1) | Inr covariances_p' \<Rightarrow>
     (case update minv z r s1 of (Inl e, s2) \<Rightarrow> (Inl e, s2) | (Inr _, s2) \<Rightarrow>
     (case setitem dx 1 means i (self_x s2) of Inl e \<Rightarrow> (Inl e, s2) | Inr means' \<Rightarrow>
     (case setitem dx dx covariances i (self_P s2) of Inl e \<Rightarrow> (Inl e, s2) | Inr covariances' \<Rightarrow>
        loop_predict_first minv dx (Suc i) zrs
          (means', covariances', means_p', covariances_p') s2))))))"

text \<open>
  \<open>np.size(zs, 0)\<close> makes an array of the list \<open>zs\<close> and returns the length of its
  first axis, which is the length of the list. Whether numpy makes an array of a list
  whose items do not all have one shape (arrays of different shapes, or an array next
  to \<open>None\<close> or a number) depends on its version: up to 1.23 it makes an array of
  objects, from 1.24 on it raises \<open>ValueError\<close>. The parameter \<open>accepts\<close> says which
  lists the numpy in use accepts: \<open>homogeneous\<close> is numpy 1.24 and later,
  \<open>\<lambda>zs. True\<close> the earlier versions.
\<close>

definition np_size0 :: "(ndarray option list \<Rightarrow> bool) \<Rightarrow> ndarray option list \<Rightarrow> error + int" where
  "np_size0 accepts zs = (if accepts zs then Inr (int (length zs)) else Inl ValueError)"

fun item_shape :: "ndarray option \<Rightarrow> (nat \<times> nat) option" where
  "item_shape None = None"
| "item_shape (Some (Num p)) = None"
| "item_shape (Some (Arr m)) = Some (nrows m, ncols m)"

fun homogeneous :: "ndarray option list \<Rightarrow> bool" where
  "homogeneous [] = True"
| "homogeneous (z # zs) = list_all (\<lambda>z'. item_shape z' = item_shape z) zs"

text \<open>
  \<open>batch_filter(zs, Rs, update_first)\<close>: \<open>n\<close> is \<open>np.size(zs, 0)\<close>, an absent
  \<open>Rs\<close> is \<open>[None]*n\<close>, and \<open>zip\<close> stops at the shorter of the two sequences.
\<close>

definition default_Rs :: "nat \<Rightarrow> ndarray option list option \<Rightarrow> ndarray option list" where
  "default_Rs n Rs = (case Rs of None \<Rightarrow> replicate n None | Some rs \<Rightarrow> rs)"

definition batch_filter ::
  "(ndarray option list \<Rightarrow> bool) \<Rightarrow> (matrix \<Rightarrow> matrix option) \<Rightarrow> ndarray option list \<Rightarrow>
   ndarray option list option \<Rightarrow> bool \<Rightarrow> FadingKalmanFilter \<Rightarrow> outputs call" where
  "batch_filter accepts minv zs Rs update_first s =
     (case np_size0 accepts zs of Inl e \<Rightarrow> (Inl e, s) | Inr n \<Rightarrow>
     (let Rs' = default_Rs (nat n) Rs in
      (case zeros3 n (dim_x s) 1 of Inl e \<Rightarrow> (Inl e, s) | Inr means \<Rightarrow>
      (case zeros3 n (dim_x s) 1 of Inl e \<Rightarrow> (Inl e, s) | Inr means_p \<Rightarrow>
      (case zeros3 n (dim_x s) (dim_x s) of Inl e \<Rightarrow> (Inl e, s) | Inr covariances \<Rightarrow>
      (case zeros3 n (dim_x s) (dim_x s) of Inl e \<Rightarrow> (Inl e, s) | Inr covariances_p \<Rightarrow>
         (if update_first
          then loop_update_first minv (nat (dim_x s)) 0 (zip zs Rs')
                 (means, covariances, means_p, covariances_p) s
          else loop_predict_first minv (nat (dim_x s)) 0 (zip zs Rs')
                 (means, covariances, means_p, covariances_p) s)))))))"

subsection \<open>The manual call sequences of the specification\<close>

text \<open>
  The sequences of calls that the specification compares \<open>batch_filter\<close> with:
  \<open>predict()\<close> then \<open>update(z, R)\<close> for each measurement in turn, and
  \<open>update(z, R)\<close> then \<open>predict()\<close> for each measurement in turn.
\<close>

fun manual_predict_update ::
  "(matrix \<Rightarrow> matrix option) \<Rightarrow> (ndarray option \<times> ndarray option) list \<Rightarrow>
   FadingKalmanFilter \<Rightarrow> unit call" where
  "manual_predict_update minv [] s = (Inr (), s)"
| "manual_predict_update minv ((z, r) # zrs) s =
     (case predict (Num 0) s of (Inl e, s1) \<Rightarrow> (Inl e, s1) | (Inr _, s1) \<Rightarrow>
     (case update minv z r s1 of (Inl e, s2) \<Rightarrow> (Inl e, s2) | (Inr _, s2) \<Rightarrow>
        manual_predict_update minv zrs s2))"

fun manual_update_predict ::
  "(matrix \<Rightarrow> matrix option) \<Rightarrow> (ndarray option \<times> ndarray option) list \<Rightarrow>
   FadingKalmanFilter \<Rightarrow> unit call" where
  "manual_update_predict minv [] s = (Inr (), s)"
| "manual_update_predict minv ((z, r) # zrs) s =
     (case update minv z r s of (Inl e, s1) \<Rightarrow> (Inl e, s1) | (Inr _, s1) \<Rightarrow>
     (case predict (Num 0) s1 of (Inl e, s2) \<Rightarrow> (Inl e, s2) | (Inr _, s2) \<Rightarrow>
        manual_update_predict minv zrs s2))"

subsection \<open>Shapes\<close>

text \<open>
  \<open>has_shape r c a\<close>: \<open>a\<close> is a two-dimensional array with \<open>r\<close> rows, each of
  \<open>c\<close> entries.
\<close>

fun has_shape :: "nat \<Rightarrow> nat \<Rightarrow> ndarray \<Rightarrow> bool" where
  "has_shape r c (Num p) = False"
| "has_shape r c (Arr m) = (nrows m = r \<and> ncols m = c \<and> list_all (\<lambda>row. length row = c) m)"

text \<open>
  \<open>conforms s\<close>: the filter has the shapes of the data model: the dimensions are
  positive, \<open>x\<close> is \<open>dim_x \<times> 1\<close>, \<open>P\<close>, \<open>F\<close>, \<open>Q\<close> and \<open>I\<close> are
  \<open>dim_x \<times> dim_x\<close>, \<open>H\<close> is \<open>dim_z \<times> dim_x\<close>, \<open>R\<close> is \<open>dim_z \<times> dim_z\<close>, and
  \<open>B\<close> is a number (the default 0) or a column of \<open>dim_x\<close> entries.
  \<open>measurement_ok dz z\<close>: the measurement is absent or a column of \<open>dz\<close> entries.
  \<open>noise_ok dz R\<close>: the noise argument is absent, a scalar or a \<open>dz \<times> dz\<close> array.
  \<open>shape_preserving minv\<close>: the inverse routine returns an array of the shape of its
  argument.
\<close>

definition conforms :: "FadingKalmanFilter \<Rightarrow> bool" where
  "conforms s \<longleftrightarrow>
     0 < dim_x s \<and> 0 < dim_z s \<and>
     has_shape (nat (dim_x s)) 1 (self_x s) \<and>
     has_shape (nat (dim_x s)) (nat (dim_x s)) (self_P s) \<and>
     has_shape (nat (dim_x s)) (nat (dim_x s)) (self_F s) \<and>
     has_shape (nat (dim_x s)) (nat (dim_x s)) (self_Q s) \<and>
     has_shape (nat (dim_x s)) (nat (dim_x s)) (self_I s) \<and>
     has_shape (nat (dim_z s)) (nat (dim_x s)) (self_H s) \<and>
     has_shape (nat (dim_z s)) (nat (dim_z s)) (self_R s) \<and>
     (case self_B s of Num b \<Rightarrow> True | Arr m \<Rightarrow> has_shape (nat (dim_x s)) 1 (Arr m))"

fun measurement_ok :: "nat \<Rightarrow> ndarray option \<Rightarrow> bool" where
  "measurement_ok dz None = True"
| "measurement_ok dz (Some z) = has_shape dz 1 z"

fun noise_ok :: "nat \<Rightarrow> ndarray option \<Rightarrow> bool" where
  "noise_ok dz None = True"
| "noise_ok dz (Some (Num r)) = True"
| "noise_ok dz (Some (Arr m)) = has_shape dz dz (Arr m)"

definition shape_preserving :: "(matrix \<Rightarrow> matrix option) \<Rightarrow> bool" where
  "shape_preserving minv \<longleftrightarrow>
     (\<forall>m mi. minv m = Some mi \<longrightarrow> has_shape (nrows m) (nrows m) (Arr mi))"

subsection \<open>The matrix formulas of the specification\<close>

text \<open>
  The sum, difference, scalar multiple, transpose and identity of the specification's
  formulas: plain matrix algebra on matrices of equal shape, with no broadcasting; the
  product is \<open>matmul\<close>. \<open>rows_of\<close> reads the rows of an array.

  \<open>prediction_model s\<close> and \<open>measurement_model s\<close>: the fields that \<open>predict\<close> and
  \<open>update\<close> read have the shapes of the data model. \<open>control_input n B u\<close> is the
  control term \<open>B\<cdot>u\<close> as a column of \<open>n\<close> entries, where the shapes make it one:
  \<open>B\<close> an \<open>n \<times> k\<close> array and \<open>u\<close> a column of \<open>k\<close> entries, a column \<open>B\<close> and a
  number \<open>u\<close>, a number \<open>B\<close> and a column \<open>u\<close>, or two numbers (the defaults
  \<open>B = 0\<close>, \<open>u = 0\<close>), whose product is added to every entry.
\<close>

definition mat_add :: "matrix \<Rightarrow> matrix \<Rightarrow> matrix" where
  "mat_add a b = tabulate2 (nrows a) (ncols a) (\<lambda>i j. a ! i ! j + b ! i ! j)"

definition mat_sub :: "matrix \<Rightarrow> matrix \<Rightarrow> matrix" where
  "mat_sub a b = tabulate2 (nrows a) (ncols a) (\<lambda>i j. a ! i ! j - b ! i ! j)"

definition mat_scale :: "real \<Rightarrow> matrix \<Rightarrow> matrix" where
  "mat_scale c a = tabulate2 (nrows a) (ncols a) (\<lambda>i j. c * a ! i ! j)"

definition mat_T :: "matrix \<Rightarrow> matrix" where
  "mat_T a = tabulate2 (ncols a) (nrows a) (\<lambda>i j. a ! j ! i)"

definition mat_identity :: "nat \<Rightarrow> matrix" where
  "mat_identity n = tabulate2 n n (\<lambda>i j. if i = j then 1 else 0)"

fun rows_of :: "ndarray \<Rightarrow> matrix" where
  "rows_of (Arr m) = m"
| "rows_of (Num p) = [[p]]"


definition measurement_model :: "FadingKalmanFilter \<Rightarrow> bool" where
  "measurement_model s \<longleftrightarrow>
     0 < dim_x s \<and> 0 < dim_z s \<and>
     has_shape (nat (dim_x s)) 1 (self_x s) \<and>
     has_shape (nat (dim_x s)) (nat (dim_x s)) (self_P s) \<and>
     has_shape (nat (dim_x s)) (nat (dim_x s)) (self_I s) \<and>
     has_shape (nat (dim_z s)) (nat (dim_x s)) (self_H s) \<and>
     has_shape (nat (dim_z s)) (nat (dim_z s)) (self_R s)"


subsection \<open>Symmetry and sequences of calls\<close>

text \<open>
  A symmetric matrix is a non-empty array equal to its transpose (so it is square).
  A sequence of \<open>predict\<close> and \<open>update\<close> calls is run in order and stops at the
  first call that raises. \<open>resolved_R_symmetric s c\<close>: the measurement noise that the
  call \<open>c\<close> resolves on the filter \<open>s\<close>, if it resolves one, is symmetric.
\<close>

fun symmetric :: "ndarray \<Rightarrow> bool" where
  "symmetric (Num p) = False"
| "symmetric (Arr m) = (m \<noteq> [] \<and> arr_T (Arr m) = Inr (Arr m))"

datatype method_call = Predict ndarray | Update "ndarray option" "ndarray option"

fun run_calls ::
  "(matrix \<Rightarrow> matrix option) \<Rightarrow> method_call list \<Rightarrow> FadingKalmanFilter \<Rightarrow> unit call" where
  "run_calls minv [] s = (Inr (), s)"
| "run_calls minv (Predict u # cs) s =
     (case predict u s of (Inl e, s1) \<Rightarrow> (Inl e, s1) | (Inr _, s1) \<Rightarrow> run_calls minv cs s1)"
| "run_calls minv (Update z R # cs) s =
     (case update minv z R s of (Inl e, s1) \<Rightarrow> (Inl e, s1) | (Inr _, s1) \<Rightarrow> run_calls minv cs s1)"

fun resolved_R_symmetric :: "FadingKalmanFilter \<Rightarrow> method_call \<Rightarrow> bool" where
  "resolved_R_symmetric s (Predict u) = True"
| "resolved_R_symmetric s (Update None R) = True"
| "resolved_R_symmetric s (Update (Some z) R) =
     (case resolve_R R s of Inl e \<Rightarrow> True | Inr Rv \<Rightarrow> symmetric Rv)"

subsection \<open>The concrete scenario of the specification\<close>

text \<open>
  The one-dimensional constant-position model: a filter constructed with
  \<open>dim_x = 1\<close>, \<open>dim_z = 1\<close>, \<open>dim_u = 0\<close> and then assigned \<open>F = [[1]]\<close>,
  \<open>H = [[1]]\<close>, \<open>Q = [[0]]\<close>, \<open>R = [[1]]\<close>, \<open>x = [[0]]\<close>, \<open>P = [[1]]\<close>.
  \<open>scenario_state a\<close> is the same object written out, with \<open>alpha_sq = a\<close>.
  \<open>inv_1x1\<close> inverts a matrix with one entry.
\<close>

definition scenario :: "real \<Rightarrow> error + FadingKalmanFilter" where
  "scenario alpha =
     (case init alpha 1 1 0 of
        Inl e \<Rightarrow> Inl e
      | Inr f \<Rightarrow> Inr (f\<lparr>self_F := Arr [[1]], self_H := Arr [[1]], self_Q := Arr [[0]],
                       self_R := Arr [[1]], self_x := Arr [[0]], self_P := Arr [[1]]\<rparr>))"

definition scenario_state :: "real \<Rightarrow> FadingKalmanFilter" where
  "scenario_state a =
     \<lparr> alpha_sq = a, dim_x = 1, dim_z = 1, dim_u = 0,
       self_x = Arr [[0]], self_P = Arr [[1]], self_Q = Arr [[0]],
       self_B = Num 0, self_F = Arr [[1]], self_H = Arr [[1]],
       self_R = Arr [[1]], self_K = Num 0, self_y = Arr [[0]], self_S = Num 0,
       self_I = Arr [[1]] \<rparr>"

fun inv_1x1 :: "matrix \<Rightarrow> matrix option" where
  "inv_1x1 [[a]] = (if a = 0 then None else Some [[1 / a]])"
| "inv_1x1 m = None"

text \<open>The scenario's filter after one update with \<open>z = [[1]]\<close>.\<close>

definition scenario_updated :: FadingKalmanFilter where
  "scenario_updated =
     (scenario_state 1)\<lparr>self_y := Arr [[1]], self_x := Arr [[1 / 2]],
        self_P := Arr [[1 / 2]], self_S := Arr [[2]], self_K := Arr [[1 / 2]]\<rparr>"

text \<open>
  A two-dimensional example: position and velocity, the position measured. The second
  object is the first after \<open>predict()\<close> and \<open>update([[1]])\<close>.
\<close>

definition tracking_example :: FadingKalmanFilter where
  "tracking_example =
     \<lparr> alpha_sq = 1, dim_x = 2, dim_z = 1, dim_u = 0,
       self_x = Arr [[0], [0]], self_P = Arr [[2, 1], [1, 2]], self_Q = Arr [[1, 0], [0, 1]],
       self_B = Num 0, self_F = Arr [[1, 1], [0, 1]], self_H = Arr [[1, 0]],
       self_R = Arr [[1]], self_K = Num 0, self_y = Arr [[0]], self_S = Num 0,
       self_I = Arr [[1, 0], [0, 1]] \<rparr>"

definition tracking_updated :: FadingKalmanFilter where
  "tracking_updated =
     tracking_example\<lparr>self_y := Arr [[1]], self_x := Arr [[7 / 8], [3 / 8]],
        self_P := Arr [[7 / 8, 3 / 8], [3 / 8, 15 / 8]], self_S := Arr [[8]],
        self_K := Arr [[7 / 8], [3 / 8]]\<rparr>"

text \<open>
  A filter with a control input: two state variables, two controls, \<open>alpha = 2\<close>.
\<close>

definition control_example :: FadingKalmanFilter where
  "control_example =
     \<lparr> alpha_sq = 4, dim_x = 2, dim_z = 1, dim_u = 2,
       self_x = Arr [[1], [2]], self_P = Arr [[2, 1], [1, 2]], self_Q = Arr [[1, 0], [0, 1]],
       self_B = Arr [[1, 0], [0, 1]], self_F = Arr [[1, 1], [0, 1]], self_H = Arr [[1, 0]],
       self_R = Arr [[1]], self_K = Num 0, self_y = Arr [[0]], self_S = Num 0,
       self_I = Arr [[1, 0], [0, 1]] \<rparr>"

text \<open>
  A filter whose arrays do not have the shapes of its dimensions: \<open>dim_x = 2\<close>, but
  \<open>x\<close>, \<open>P\<close>, \<open>F\<close>, \<open>Q\<close> were assigned arrays of one entry.
\<close>

definition misshaped_example :: FadingKalmanFilter where
  "misshaped_example =
     \<lparr> alpha_sq = 1, dim_x = 2, dim_z = 1, dim_u = 0,
       self_x = Arr [[5]], self_P = Arr [[1]], self_Q = Arr [[0]],
       self_B = Num 0, self_F = Arr [[1]], self_H = Arr [[1]],
       self_R = Arr [[1]], self_K = Num 0, self_y = Arr [[0]], self_S = Num 0,
       self_I = Arr [[1]] \<rparr>"

text \<open>
  The scenario's filter with \<open>alpha_sq = 4\<close> after the measurements \<open>[[1]]\<close> and
  \<open>[[3]]\<close>: \<open>predict_first_final\<close> after predict, update, predict, update with the
  noise arguments \<open>None\<close> and \<open>2\<close>; \<open>update_first_final\<close> after update, predict,
  update, predict with the same noise arguments; \<open>stored_noise_final\<close> after update,
  predict, update, predict with the stored \<open>R\<close>.
\<close>

definition predict_first_final :: FadingKalmanFilter where
  "predict_first_final =
     (scenario_state 4)\<lparr>self_y := Arr [[11 / 5]], self_x := Arr [[28 / 13]],
        self_P := Arr [[16 / 13]], self_S := Arr [[26 / 5]], self_K := Arr [[8 / 13]]\<rparr>"


definition stored_noise_final :: FadingKalmanFilter where
  "stored_noise_final =
     (scenario_state 4)\<lparr>self_y := Arr [[5 / 2]], self_x := Arr [[13 / 6]],
        self_P := Arr [[8 / 3]], self_S := Arr [[3]], self_K := Arr [[2 / 3]]\<rparr>"

section \<open>Properties\<close>

subsection \<open>Evaluation and algebra of the array operations\<close>

lemmas eval_defs = tabulate2_def nrows_def ncols_def bdim_def bidx_def bget_def matmul_def
  np_add_def np_sub_def np_mul_def dot3_def zeros_def eye_def

lemma scalar_times_eye:
  "map (map (\<lambda>v. v * r)) (tabulate2 n n (\<lambda>i j. if i = j then 1 else 0))
     = tabulate2 n n (\<lambda>i j. if i = j then r else 0)"
  by (simp add: tabulate2_def comp_def if_distrib cong: if_cong)

lemma np_mul_one: "np_mul (Num 1) A = Inr A"
  by (cases A) (simp_all add: np_mul_def map_idI)

lemma tabulate2_column: "tabulate2 n (Suc 0) (\<lambda>i j. v) = replicate n [v]"
  by (simp add: tabulate2_def map_replicate_const)

lemma tabulate2_nth:
  "i < r \<Longrightarrow> j < c \<Longrightarrow> tabulate2 r c f ! i ! j = f i j"
  by (simp add: tabulate2_def)

lemma tabulate2_length [simp]: "length (tabulate2 r c f) = r"
  by (simp add: tabulate2_def)

lemma tabulate2_row_length: "i < r \<Longrightarrow> length (tabulate2 r c f ! i) = c"
  by (simp add: tabulate2_def)

lemma tabulate2_id:
  assumes "length m = r" and "list_all (\<lambda>row. length row = c) m"
  shows "tabulate2 r c (\<lambda>i j. m ! i ! j) = m"
proof (rule nth_equalityI)
  show "length (tabulate2 r c (\<lambda>i j. m ! i ! j)) = length m"
    using assms by simp
next
  fix i assume "i < length (tabulate2 r c (\<lambda>i j. m ! i ! j))"
  then have i: "i < r" by simp
  then have "length (m ! i) = c"
    using assms by (simp add: list_all_length)
  then show "tabulate2 r c (\<lambda>i j. m ! i ! j) ! i = m ! i"
    using i by (auto simp: tabulate2_def intro!: nth_equalityI)
qed

lemma broadcast_to_same_shape:
  assumes "has_shape r c a"
  shows "broadcast_to r c a = Inr a"
proof (cases a)
  case (Num p)
  with assms show ?thesis by simp
next
  case (Arr m)
  with assms have sh: "nrows m = r" "ncols m = c" "list_all (\<lambda>row. length row = c) m"
    by simp_all
  have "tabulate2 r c (\<lambda>i j. bget m i j) = tabulate2 r c (\<lambda>i j. m ! i ! j)"
    using sh by (auto simp: tabulate2_def bget_def bidx_def)
  also have "\<dots> = m"
    using sh by (intro tabulate2_id) (simp_all add: nrows_def)
  finally show ?thesis using Arr sh by simp
qed

subsection \<open>The claims about single calls\<close>

text \<open>
  C4. For every filter state, \<open>update(None)\<close> raises nothing and leaves the filter, in
  particular \<open>x\<close> and \<open>P\<close>, exactly as it was.
\<close>

theorem update_None_noop:
  "update minv None None s = (Inr (), s) \<and>
   self_x (snd (update minv None None s)) = self_x s \<and>
   self_P (snd (update minv None None s)) = self_P s"
  by (simp add: update_def)

text \<open>
  C9. For every filter state and every \<open>R\<close> argument, of whatever shape,
  \<open>update(None, R)\<close> returns before \<open>R\<close> is looked at: no error is raised and
  \<open>K\<close>, \<open>S\<close>, \<open>y\<close>, the stored \<open>R\<close> and every other field are unchanged.
\<close>

theorem update_None_ignores_R:
  "update minv None R s = (Inr (), s) \<and>
   self_K (snd (update minv None R s)) = self_K s \<and>
   self_S (snd (update minv None R s)) = self_S s \<and>
   self_y (snd (update minv None R s)) = self_y s \<and>
   self_R (snd (update minv None R s)) = self_R s"
  by (simp add: update_def)

text \<open>
  C6. Construction fails, with the assertion error, if and only if \<open>alpha < 1\<close> or
  \<open>dim_x \<le> 0\<close> or \<open>dim_z \<le> 0\<close> or \<open>dim_u < 0\<close>; otherwise it stores
  \<open>alpha_sq = alpha\<^sup>2\<close> and the dimensions, \<open>x\<close> and \<open>y\<close> as zero columns, \<open>P\<close>,
  \<open>Q\<close> and \<open>I\<close> as the \<open>dim_x\<close> identity, \<open>R\<close> as the \<open>dim_z\<close> identity, and the
  number 0 for \<open>F\<close>, \<open>B\<close>, \<open>H\<close>, \<open>K\<close> and \<open>S\<close>.
\<close>

theorem init_validates:
  "init alpha dx dz du =
     (if alpha < 1 \<or> dx \<le> 0 \<or> dz \<le> 0 \<or> du < 0 then Inl AssertionError
      else Inr \<lparr> alpha_sq = alpha\<^sup>2, dim_x = dx, dim_z = dz, dim_u = du,
                 self_x = Arr (replicate (nat dx) [0]),
                 self_P = Arr (tabulate2 (nat dx) (nat dx) (\<lambda>i j. if i = j then 1 else 0)),
                 self_Q = Arr (tabulate2 (nat dx) (nat dx) (\<lambda>i j. if i = j then 1 else 0)),
                 self_B = Num 0, self_F = Num 0, self_H = Num 0,
                 self_R = Arr (tabulate2 (nat dz) (nat dz) (\<lambda>i j. if i = j then 1 else 0)),
                 self_K = Num 0, self_y = Arr (replicate (nat dz) [0]), self_S = Num 0,
                 self_I = Arr (tabulate2 (nat dx) (nat dx) (\<lambda>i j. if i = j then 1 else 0)) \<rparr>) \<and>
   ((\<exists>e. init alpha dx dz du = Inl e) \<longleftrightarrow> alpha < 1 \<or> dx \<le> 0 \<or> dz \<le> 0 \<or> du < 0)"
  by (auto simp: init_def zeros_def eye_def tabulate2_column)








text \<open>
  C8. The concrete scenario. The filter constructed with \<open>alpha = 1\<close> and assigned the
  one-dimensional model, updated once with \<open>z = [[1]]\<close> by an inverse routine that
  inverts \<open>[[2]]\<close> to \<open>[[0.5]]\<close>, has \<open>K = [[0.5]]\<close>, \<open>x = [[0.5]]\<close> and
  \<open>P = [[0.5]]\<close>. Constructed with \<open>alpha = 1.1\<close> it has \<open>alpha_sq = 1.21\<close>, and a
  predict from \<open>P = [[1]]\<close> gives \<open>P = [[1.21]]\<close>.
\<close>

theorem concrete_scenario:
  assumes "minv [[2]] = Some [[1 / 2]]"
  shows "scenario 1 = Inr (scenario_state 1) \<and>
    update minv (Some (Arr [[1]])) None (scenario_state 1) =
      (Inr (), (scenario_state 1)\<lparr>self_y := Arr [[1]], self_x := Arr [[1 / 2]],
         self_P := Arr [[1 / 2]], self_S := Arr [[2]], self_K := Arr [[1 / 2]]\<rparr>) \<and>
    scenario (11 / 10) = Inr (scenario_state (121 / 100)) \<and>
    predict (Num 0) (scenario_state (121 / 100)) =
      (Inr (), (scenario_state (121 / 100))\<lparr>self_x := Arr [[0]], self_P := Arr [[121 / 100]]\<rparr>)"
proof -
  have a: "scenario 1 = Inr (scenario_state 1)"
    by (simp add: scenario_def scenario_state_def init_def eval_defs)
  have b: "update minv (Some (Arr [[1]])) None (scenario_state 1) =
      (Inr (), (scenario_state 1)\<lparr>self_y := Arr [[1]], self_x := Arr [[1 / 2]],
         self_P := Arr [[1 / 2]], self_S := Arr [[2]], self_K := Arr [[1 / 2]]\<rparr>)"
    using assms by (simp add: update_def Let_def scenario_state_def eval_defs)
  have c: "scenario (11 / 10) = Inr (scenario_state (121 / 100))"
    by (simp add: scenario_def scenario_state_def init_def eval_defs power2_eq_square)
  have d: "predict (Num 0) (scenario_state (121 / 100)) =
      (Inr (), (scenario_state (121 / 100))\<lparr>self_x := Arr [[0]], self_P := Arr [[121 / 100]]\<rparr>)"
    by (simp add: predict_def Let_def scenario_state_def eval_defs)
  from a b c d show ?thesis by simp
qed

theorem concrete_scenario_witness:
  "inv_1x1 [[2]] = Some [[1 / 2]] \<and>
   scenario 1 = Inr (scenario_state 1) \<and>
   update inv_1x1 (Some (Arr [[1]])) None (scenario_state 1) =
      (Inr (), (scenario_state 1)\<lparr>self_y := Arr [[1]], self_x := Arr [[1 / 2]],
         self_P := Arr [[1 / 2]], self_S := Arr [[2]], self_K := Arr [[1 / 2]]\<rparr>) \<and>
   scenario (11 / 10) = Inr (scenario_state (121 / 100)) \<and>
   predict (Num 0) (scenario_state (121 / 100)) =
      (Inr (), (scenario_state (121 / 100))\<lparr>self_x := Arr [[0]], self_P := Arr [[121 / 100]]\<rparr>)"
proof -
  have h: "inv_1x1 [[2]] = Some [[1 / 2]]" by simp
  from concrete_scenario [of inv_1x1, OF h] h show ?thesis by blast
qed

subsection \<open>Symmetry of the covariance\<close>

lemma nrows_tabulate2: "nrows (tabulate2 r c f) = r"
  by (simp add: nrows_def)

lemma ncols_tabulate2: "0 < r \<Longrightarrow> ncols (tabulate2 r c f) = c"
  by (simp add: ncols_def tabulate2_def upt_conv_Cons)

lemma tabulate2_cong:
  "(\<And>i j. i < r \<Longrightarrow> j < c \<Longrightarrow> f i j = g i j) \<Longrightarrow> tabulate2 r c f = tabulate2 r c g"
  by (simp add: tabulate2_def)

lemma map_map_tabulate2: "map (map h) (tabulate2 r c f) = tabulate2 r c (\<lambda>i j. h (f i j))"
  by (simp add: tabulate2_def comp_def)

lemma tabulate2_nonempty: "0 < r \<Longrightarrow> tabulate2 r c f \<noteq> []"
  by (simp add: tabulate2_def)

lemma symmetric_tabulate2:
  assumes "0 < n" and "\<And>i j. i < n \<Longrightarrow> j < n \<Longrightarrow> g i j = g j i"
  shows "symmetric (Arr (tabulate2 n n g))"
proof -
  have "tabulate2 n n (\<lambda>i j. tabulate2 n n g ! j ! i) = tabulate2 n n g"
    using assms(2) by (intro tabulate2_cong) (simp add: tabulate2_nth)
  then show ?thesis
    using assms(1) by (simp add: ncols_tabulate2 nrows_tabulate2 tabulate2_nonempty)
qed

lemma symmetric_imp_tabulate2:
  assumes "symmetric A"
  shows "\<exists>n g. 0 < n \<and> A = Arr (tabulate2 n n g) \<and> (\<forall>i<n. \<forall>j<n. g i j = g j i)"
proof (cases A)
  case (Num p)
  with assms show ?thesis by simp
next
  case (Arr m)
  with assms have ne: "m \<noteq> []" and t: "tabulate2 (ncols m) (nrows m) (\<lambda>i j. m ! j ! i) = m"
    by simp_all
  let ?n = "nrows m"
  from ne have n: "0 < ?n" by (simp add: nrows_def)
  from arg_cong [OF t, of length] have c: "ncols m = ?n" by (simp add: nrows_def)
  from t c have m: "m = tabulate2 ?n ?n (\<lambda>i j. m ! j ! i)" by simp
  have "m ! j ! i = m ! i ! j" if "i < ?n" "j < ?n" for i j
    using that arg_cong [OF m, of "\<lambda>x. x ! i ! j"] by (simp add: tabulate2_nth)
  with n m Arr show ?thesis
    by (intro exI [of _ ?n] exI [of _ "\<lambda>i j. m ! j ! i"]) simp
qed

lemma bget_tabulate2:
  assumes "0 < n" "i < r" "j < r" "n = r \<or> n = 1"
  shows "bget (tabulate2 n n g) i j = g (bidx n i) (bidx n j)"
  using assms
  by (auto simp: bget_def nrows_tabulate2 ncols_tabulate2 bidx_def tabulate2_nth)

lemma bdim_cases:
  assumes "bdim a b = Some r"
  shows "(a = r \<or> a = 1) \<and> (b = r \<or> b = 1) \<and> (0 < a \<longrightarrow> 0 < b \<longrightarrow> 0 < r)"
  using assms by (auto simp: bdim_def split: if_splits)

lemma elementwise_symmetric:
  assumes "symmetric A" "symmetric B" "elementwise f A B = Inr C"
  shows "symmetric C"
proof -
  from assms(1) obtain n g where A: "0 < n" "A = Arr (tabulate2 n n g)"
    and g: "\<And>i j. i < n \<Longrightarrow> j < n \<Longrightarrow> g i j = g j i"
    using symmetric_imp_tabulate2 by blast
  from assms(2) obtain k h where B: "0 < k" "B = Arr (tabulate2 k k h)"
    and h: "\<And>i j. i < k \<Longrightarrow> j < k \<Longrightarrow> h i j = h j i"
    using symmetric_imp_tabulate2 by blast
  from assms(3) A B obtain r where r: "bdim n k = Some r"
    and C: "C = Arr (tabulate2 r r (\<lambda>i j. f (bget (tabulate2 n n g) i j) (bget (tabulate2 k k h) i j)))"
    by (auto simp: nrows_tabulate2 ncols_tabulate2 split: option.splits)
  from bdim_cases [OF r] A(1) B(1) have nr: "n = r \<or> n = 1" and kr: "k = r \<or> k = 1" and r0: "0 < r"
    by auto
  have sym: "f (bget (tabulate2 n n g) i j) (bget (tabulate2 k k h) i j) =
             f (bget (tabulate2 n n g) j i) (bget (tabulate2 k k h) j i)"
    if ij: "i < r" "j < r" for i j
  proof -
    have "bidx n i < n" "bidx n j < n" "bidx k i < k" "bidx k j < k"
      using ij nr kr A(1) B(1) by (auto simp: bidx_def)
    then have "g (bidx n i) (bidx n j) = g (bidx n j) (bidx n i)"
      "h (bidx k i) (bidx k j) = h (bidx k j) (bidx k i)"
      using g h by simp_all
    then show ?thesis
      using ij nr kr A(1) B(1) by (simp add: bget_tabulate2)
  qed
  show ?thesis
    unfolding C using r0 sym by (rule symmetric_tabulate2)
qed

lemma np_add_symmetric:
  "symmetric A \<Longrightarrow> symmetric B \<Longrightarrow> np_add A B = Inr C \<Longrightarrow> symmetric C"
  unfolding np_add_def by (rule elementwise_symmetric)

lemma scale_symmetric:
  assumes "symmetric A" "np_mul (Num a) A = Inr C"
  shows "symmetric C"
proof -
  from assms(1) obtain n g where A: "0 < n" "A = Arr (tabulate2 n n g)"
    and g: "\<And>i j. i < n \<Longrightarrow> j < n \<Longrightarrow> g i j = g j i"
    using symmetric_imp_tabulate2 by blast
  from assms(2) A have C: "C = Arr (tabulate2 n n (\<lambda>i j. a * g i j))"
    by (auto simp: np_mul_def map_map_tabulate2)
  show ?thesis
    unfolding C
  proof (rule symmetric_tabulate2)
    show "0 < n" by fact
    show "a * g i j = a * g j i" if "i < n" "j < n" for i j
      using that g by simp
  qed
qed

lemma sum_list_upt: "(\<Sum>k\<leftarrow>[0..<n]. f k) = (\<Sum>k<n. f k)" for f :: "nat \<Rightarrow> real"
  by (simp add: interv_sum_list_conv_sum_set_nat atLeast0LessThan)

lemma sandwich_entries_symmetric:
  fixes a :: "nat \<Rightarrow> nat \<Rightarrow> real"
  assumes "\<And>k l. k < n \<Longrightarrow> l < n \<Longrightarrow> g k l = g l k"
  shows "(\<Sum>k<n. a i k * (\<Sum>l<n. g k l * a j l)) = (\<Sum>k<n. a j k * (\<Sum>l<n. g k l * a i l))"
proof -
  have "(\<Sum>k<n. a i k * (\<Sum>l<n. g k l * a j l)) = (\<Sum>k<n. \<Sum>l<n. a i k * g k l * a j l)"
    by (simp add: sum_distrib_left mult.assoc)
  also have "\<dots> = (\<Sum>l<n. \<Sum>k<n. a i k * g k l * a j l)"
    by (rule sum.swap)
  also have "\<dots> = (\<Sum>l<n. \<Sum>k<n. a j l * g l k * a i k)"
    using assms by (intro sum.cong refl) (simp add: mult_ac)
  also have "\<dots> = (\<Sum>l<n. a j l * (\<Sum>k<n. g l k * a i k))"
    by (simp add: sum_distrib_left mult.assoc)
  finally show ?thesis .
qed

lemma sandwich_symmetric:
  assumes "symmetric P" "arr_T A = Inr At" "dot3 A P At = Inr J"
  shows "symmetric J"
proof -
  from assms(1) obtain n g where P: "0 < n" "P = Arr (tabulate2 n n g)"
    and g: "\<And>i j. i < n \<Longrightarrow> j < n \<Longrightarrow> g i j = g j i"
    using symmetric_imp_tabulate2 by blast
  from assms(2) obtain a where A: "A = Arr a"
    and At: "At = Arr (tabulate2 (ncols a) (nrows a) (\<lambda>i j. a ! j ! i))"
    by (cases A) auto
  let ?at = "tabulate2 (ncols a) (nrows a) (\<lambda>i j. a ! j ! i)"
  let ?p = "tabulate2 n n g"
  from assms(3) P A At have c: "ncols a = n"
    by (auto simp: dot3_def nrows_tabulate2 ncols_tabulate2 split: sum.splits if_splits)
  with P(1) have ra: "0 < nrows a"
    by (cases a) (simp_all add: ncols_def nrows_def)
  let ?r = "nrows a"
  have pat: "matmul ?p ?at = tabulate2 n ?r (\<lambda>k j. \<Sum>l<n. g k l * a ! j ! l)"
    unfolding matmul_def using P(1) c ra
    by (simp add: nrows_tabulate2 ncols_tabulate2 sum_list_upt)
       (intro tabulate2_cong sum.cong refl, simp add: tabulate2_nth)
  from assms(3) P A At c have J: "J = Arr (matmul a (matmul ?p ?at))"
    by (auto simp: dot3_def nrows_tabulate2 ncols_tabulate2 split: sum.splits if_splits)
  have "matmul a (matmul ?p ?at) =
        tabulate2 ?r ?r (\<lambda>i j. \<Sum>k<n. a ! i ! k * (\<Sum>l<n. g k l * a ! j ! l))"
    unfolding pat unfolding matmul_def using P(1) c ra
    by (simp add: nrows_tabulate2 ncols_tabulate2 sum_list_upt)
       (intro tabulate2_cong sum.cong refl, simp add: tabulate2_nth)
  with J have J': "J = Arr (tabulate2 ?r ?r (\<lambda>i j. \<Sum>k<n. a ! i ! k * (\<Sum>l<n. g k l * a ! j ! l)))"
    by simp
  show ?thesis
    unfolding J'
  proof (rule symmetric_tabulate2)
    show "0 < ?r" by fact
    show "(\<Sum>k<n. a ! i ! k * (\<Sum>l<n. g k l * a ! j ! l)) =
          (\<Sum>k<n. a ! j ! k * (\<Sum>l<n. g k l * a ! i ! l))" for i j
      using g by (rule sandwich_entries_symmetric [of n g "\<lambda>i k. a ! i ! k"])
  qed
qed


lemma predict_symmetric:
  assumes "predict u s = (Inr (), s')" "symmetric (self_P s)" "symmetric (self_Q s)"
  shows "symmetric (self_P s')"
proof -
  from assms(1) obtain Ft FPFt aFPFt P' where
    t: "arr_T (self_F s) = Inr Ft" and d: "dot3 (self_F s) (self_P s) Ft = Inr FPFt" and
    m: "np_mul (Num (alpha_sq s)) FPFt = Inr aFPFt" and a: "np_add aFPFt (self_Q s) = Inr P'" and
    p: "self_P s' = P'"
    by (auto simp: predict_def Let_def split: sum.splits)
  from assms(2) t d have "symmetric FPFt" by (rule sandwich_symmetric)
  from this m have "symmetric aFPFt" by (rule scale_symmetric)
  from this assms(3) a have "symmetric P'" by (rule np_add_symmetric)
  with p show ?thesis by simp
qed

lemma update_symmetric:
  assumes "update minv z R s = (Inr (), s')" "symmetric (self_P s)"
    "resolved_R_symmetric s (Update z R)"
  shows "symmetric (self_P s')"
proof (cases z)
  case None
  with assms show ?thesis by (simp add: update_def)
next
  case (Some zv)
  with assms(1) obtain Rv K I_KH I_KHt J Kt KRKt P' where
    r: "resolve_R R s = Inr Rv" and
    t1: "arr_T I_KH = Inr I_KHt" and d1: "dot3 I_KH (self_P s) I_KHt = Inr J" and
    t2: "arr_T K = Inr Kt" and d2: "dot3 K Rv Kt = Inr KRKt" and a: "np_add J KRKt = Inr P'" and
    p: "self_P s' = P'"
    by (auto simp: update_def Let_def split: sum.splits)
  from r assms(3) Some have Rv: "symmetric Rv" by simp
  from assms(2) t1 d1 have "symmetric J" by (rule sandwich_symmetric)
  moreover from Rv t2 d2 have "symmetric KRKt" by (rule sandwich_symmetric)
  ultimately have "symmetric P'" using a by (rule np_add_symmetric)
  with p show ?thesis by simp
qed

lemma predict_frame:
  "predict u s = (r, s') \<Longrightarrow>
   self_Q s' = self_Q s \<and> self_R s' = self_R s \<and> dim_z s' = dim_z s"
  by (auto simp: predict_def Let_def split: sum.splits)

lemma update_frame:
  "update minv z R s = (r, s') \<Longrightarrow>
   self_Q s' = self_Q s \<and> self_R s' = self_R s \<and> dim_z s' = dim_z s"
  by (auto simp: update_def Let_def split: sum.splits option.splits)


lemma resolve_R_frame:
  "self_R s' = self_R s \<Longrightarrow> dim_z s' = dim_z s \<Longrightarrow> resolve_R R s' = resolve_R R s"
  by (cases R) (simp, rename_tac a, case_tac a, simp_all)

lemma resolved_R_symmetric_frame:
  assumes "self_R s' = self_R s" "dim_z s' = dim_z s"
  shows "resolved_R_symmetric s' c = resolved_R_symmetric s c"
proof (cases c)
  case (Predict u)
  then show ?thesis by simp
next
  case (Update z R)
  then show ?thesis
    using resolve_R_frame [OF assms, of R] by (cases z) simp_all
qed

lemma run_calls_step:
  assumes "run_calls minv (c # cs) s = (Inr (), s')"
  shows "\<exists>s1. run_calls minv [c] s = (Inr (), s1) \<and> run_calls minv cs s1 = (Inr (), s')"
  using assms by (cases c) (auto split: prod.splits sum.splits)

lemma run_calls_Cons:
  assumes "run_calls minv [c] s = (Inr (), s1)"
  shows "run_calls minv (c # cs) s = run_calls minv cs s1"
  using assms by (cases c) (auto split: prod.splits sum.splits)

lemma single_call_symmetric:
  assumes "run_calls minv [c] s = (Inr (), s1)" "symmetric (self_P s)" "symmetric (self_Q s)"
    "resolved_R_symmetric s c"
  shows "symmetric (self_P s1) \<and> self_Q s1 = self_Q s \<and> self_R s1 = self_R s \<and>
         dim_z s1 = dim_z s"
proof (cases c)
  case (Predict u)
  with assms(1) have p: "predict u s = (Inr (), s1)"
    by (auto split: prod.splits sum.splits)
  from predict_symmetric [OF p assms(2,3)] predict_frame [OF p] show ?thesis by simp
next
  case (Update z R)
  with assms(1) have u: "update minv z R s = (Inr (), s1)"
    by (auto split: prod.splits sum.splits)
  from update_symmetric [OF u assms(2)] assms(4) Update update_frame [OF u] show ?thesis by simp
qed


lemma run_calls_symmetric:
  assumes "run_calls minv cs s = (Inr (), s')"
    and "symmetric (self_P s)" and "symmetric (self_Q s)"
    and "list_all (resolved_R_symmetric s) cs"
  shows "\<forall>k\<le>length cs. \<exists>sk. run_calls minv (take k cs) s = (Inr (), sk) \<and> symmetric (self_P sk)"
  using assms
proof (induction cs arbitrary: s)
  case Nil
  then show ?case by simp
next
  case (Cons c cs)
  from run_calls_step [OF Cons.prems(1)] obtain s1 where
    step: "run_calls minv [c] s = (Inr (), s1)" and rest: "run_calls minv cs s1 = (Inr (), s')"
    by blast
  from Cons.prems(4) have c: "resolved_R_symmetric s c" and cs: "list_all (resolved_R_symmetric s) cs"
    by simp_all
  from single_call_symmetric [OF step Cons.prems(2,3) c]
  have P1: "symmetric (self_P s1)" and Q1: "self_Q s1 = self_Q s"
    and R1: "self_R s1 = self_R s" and z1: "dim_z s1 = dim_z s"
    by simp_all
  from Cons.prems(3) Q1 have Q1s: "symmetric (self_Q s1)" by simp
  have "resolved_R_symmetric s1 = resolved_R_symmetric s"
    using resolved_R_symmetric_frame [OF R1 z1] by (rule ext)
  with cs have rs: "list_all (resolved_R_symmetric s1) cs" by simp
  note ih = Cons.IH [OF rest P1 Q1s rs]
  show ?case
  proof (intro allI impI)
    fix k assume k: "k \<le> length (c # cs)"
    show "\<exists>sk. run_calls minv (take k (c # cs)) s = (Inr (), sk) \<and> symmetric (self_P sk)"
    proof (cases k)
      case 0
      with Cons.prems(2) show ?thesis by simp
    next
      case (Suc k')
      with k have "k' \<le> length cs" by simp
      with ih obtain sk where sk: "run_calls minv (take k' cs) s1 = (Inr (), sk)"
        "symmetric (self_P sk)"
        by blast
      from run_calls_Cons [OF step, of "take k' cs"] sk(1) Suc
      have "run_calls minv (take k (c # cs)) s = (Inr (), sk)" by simp
      with sk(2) show ?thesis by blast
    qed
  qed
qed

text \<open>
  C5. Over exact arithmetic, if a sequence of \<open>predict\<close> and \<open>update\<close> calls
  returns, having started with symmetric \<open>P\<close> and \<open>Q\<close> and with every measurement
  noise that an \<open>update\<close> resolves symmetric, then \<open>P\<close> is symmetric after every call
  of the sequence. Nothing is assumed of the inverse routine, so the Joseph form keeps
  \<open>P\<close> symmetric for any gain \<open>K\<close>.
\<close>

theorem covariance_stays_symmetric:
  assumes "run_calls minv cs s = (Inr (), s')"
    and "symmetric (self_P s)" and "symmetric (self_Q s)"
    and "list_all (resolved_R_symmetric s) cs"
  shows "\<forall>k\<le>length cs. \<exists>sk. run_calls minv (take k cs) s = (Inr (), sk) \<and> symmetric (self_P sk)"
  using assms by (rule run_calls_symmetric)

theorem covariance_stays_symmetric_witness:
  "run_calls inv_1x1 [Predict (Num 0), Update (Some (Arr [[1]])) None, Update None None]
     tracking_example = (Inr (), tracking_updated) \<and>
   symmetric (self_P tracking_example) \<and> symmetric (self_Q tracking_example) \<and>
   list_all (resolved_R_symmetric tracking_example)
     [Predict (Num 0), Update (Some (Arr [[1]])) None, Update None None] \<and>
   (2::nat) \<le> length [Predict (Num 0), Update (Some (Arr [[1]])) None, Update None None] \<and>
   (\<exists>sk. run_calls inv_1x1
           (take 2 [Predict (Num 0), Update (Some (Arr [[1]])) None, Update None None])
           tracking_example = (Inr (), sk) \<and>
         symmetric (self_P sk))"
proof -
  let ?cs = "[Predict (Num 0), Update (Some (Arr [[1]])) None, Update None None]"
  have h1: "run_calls inv_1x1 ?cs tracking_example = (Inr (), tracking_updated)"
    by (simp add: predict_def update_def Let_def tracking_example_def tracking_updated_def
         eval_defs numeral_2_eq_2)
  have h2: "symmetric (self_P tracking_example)"
    by (simp add: tracking_example_def eval_defs numeral_2_eq_2)
  have h3: "symmetric (self_Q tracking_example)"
    by (simp add: tracking_example_def eval_defs numeral_2_eq_2)
  have h4: "list_all (resolved_R_symmetric tracking_example) ?cs"
    by (simp add: tracking_example_def eval_defs)
  have k: "(2::nat) \<le> length ?cs" by simp
  from covariance_stays_symmetric [OF h1 h2 h3 h4] k
  have "\<exists>sk. run_calls inv_1x1 (take 2 ?cs) tracking_example = (Inr (), sk) \<and>
              symmetric (self_P sk)"
    by blast
  with h1 h2 h3 h4 k show ?thesis by blast
qed

subsection \<open>The shapes of the data model are preserved\<close>

lemma predict_dim_x: "predict u s = (r, s') \<Longrightarrow> dim_x s' = dim_x s"
  by (auto simp: predict_def Let_def split: sum.splits)

lemma update_dim_x: "update minv z R s = (r, s') \<Longrightarrow> dim_x s' = dim_x s"
  by (auto simp: update_def Let_def split: sum.splits option.splits)

lemma manual_predict_update_dim_x:
  "manual_predict_update minv zrs s = (r, s') \<Longrightarrow> dim_x s' = dim_x s"
proof (induction zrs arbitrary: s)
  case Nil
  then show ?case by simp
next
  case (Cons a zrs)
  obtain z R where a: "a = (z, R)" by (cases a)
  show ?case
  proof (cases "predict (Num 0) s")
    case p: (Pair r1 s1)
    show ?thesis
    proof (cases "update minv z R s1")
      case u: (Pair r2 s2)
      from Cons.prems Cons.IH [of s2] predict_dim_x [OF p] update_dim_x [OF u] p u a
      show ?thesis by (auto split: sum.splits)
    qed
  qed
qed

lemma manual_update_predict_dim_x:
  "manual_update_predict minv zrs s = (r, s') \<Longrightarrow> dim_x s' = dim_x s"
proof (induction zrs arbitrary: s)
  case Nil
  then show ?case by simp
next
  case (Cons a zrs)
  obtain z R where a: "a = (z, R)" by (cases a)
  show ?case
  proof (cases "update minv z R s")
    case u: (Pair r1 s1)
    show ?thesis
    proof (cases "predict (Num 0) s1")
      case p: (Pair r2 s2)
      from Cons.prems Cons.IH [of s2] predict_dim_x [OF p] update_dim_x [OF u] p u a
      show ?thesis by (auto split: sum.splits)
    qed
  qed
qed

lemma has_shape_tabulate2:
  assumes "0 < r"
  shows "has_shape r c (Arr (tabulate2 r c f))"
proof -
  have "list_all (\<lambda>row. length row = c) (tabulate2 r c f)"
    by (simp add: tabulate2_def list_all_iff)
  with assms show ?thesis
    by (simp add: nrows_tabulate2 ncols_tabulate2)
qed

lemma has_shape_Arr:
  assumes "has_shape r c A"
  obtains m where "A = Arr m" "nrows m = r" "ncols m = c"
  using assms by (cases A) simp_all

lemma ncols_map_map: "ncols (map (map h) m) = ncols m"
  by (cases m) (simp_all add: ncols_def)

lemma has_shape_map_map:
  "has_shape r c (Arr m) \<Longrightarrow> has_shape r c (Arr (map (map h) m))"
  by (simp add: nrows_def ncols_map_map list_all_iff)

lemma dot_shape:
  assumes "has_shape r k A" "has_shape k c B" "0 < r" "dot A B = Inr C"
  shows "has_shape r c C"
proof -
  from assms(1) obtain a where a: "A = Arr a" "nrows a = r" "ncols a = k"
    by (rule has_shape_Arr)
  from assms(2) obtain b where b: "B = Arr b" "nrows b = k" "ncols b = c"
    by (rule has_shape_Arr)
  from assms(4) a b have "C = Arr (tabulate2 r c (\<lambda>i j. \<Sum>k\<leftarrow>[0..<ncols a]. a ! i ! k * b ! k ! j))"
    by (simp add: matmul_def)
  with assms(3) show ?thesis by (simp only: has_shape_tabulate2)
qed

lemma dot_Num_shape:
  assumes "has_shape r c A" "dot A (Num q) = Inr C"
  shows "has_shape r c C"
proof -
  from assms(1) obtain a where a: "A = Arr a" by (rule has_shape_Arr)
  from assms(2) a have "C = Arr (map (map (\<lambda>v. v * q)) a)" by simp
  with assms(1) a show ?thesis by (simp only: has_shape_map_map)
qed

lemma Num_dot_shape:
  assumes "has_shape r c A" "dot (Num q) A = Inr C"
  shows "has_shape r c C"
proof -
  from assms(1) obtain a where a: "A = Arr a" by (rule has_shape_Arr)
  from assms(2) a have "C = Arr (map (map (\<lambda>v. q * v)) a)" by simp
  with assms(1) a show ?thesis by (simp only: has_shape_map_map)
qed

lemma elementwise_Num_shape:
  assumes "has_shape r c A" "elementwise f A (Num q) = Inr C"
  shows "has_shape r c C"
proof -
  from assms(1) obtain a where a: "A = Arr a" by (rule has_shape_Arr)
  from assms(2) a have "C = Arr (map (map (\<lambda>v. f v q)) a)" by simp
  with assms(1) a show ?thesis by (simp only: has_shape_map_map)
qed

lemma Num_elementwise_shape:
  assumes "has_shape r c A" "elementwise f (Num q) A = Inr C"
  shows "has_shape r c C"
proof -
  from assms(1) obtain a where a: "A = Arr a" by (rule has_shape_Arr)
  from assms(2) a have "C = Arr (map (map (\<lambda>v. f q v)) a)" by simp
  with assms(1) a show ?thesis by (simp only: has_shape_map_map)
qed

lemma elementwise_shape:
  assumes "has_shape r c A" "has_shape r c B" "0 < r" "elementwise f A B = Inr C"
  shows "has_shape r c C"
proof -
  from assms(1) obtain a where a: "A = Arr a" "nrows a = r" "ncols a = c"
    by (rule has_shape_Arr)
  from assms(2) obtain b where b: "B = Arr b" "nrows b = r" "ncols b = c"
    by (rule has_shape_Arr)
  from assms(4) a b have "C = Arr (tabulate2 r c (\<lambda>i j. f (bget a i j) (bget b i j)))"
    by (simp add: bdim_def)
  with assms(3) show ?thesis by (simp only: has_shape_tabulate2)
qed

lemma T_shape:
  assumes "has_shape r c A" "0 < c" "arr_T A = Inr At"
  shows "has_shape c r At"
proof -
  from assms(1) obtain a where a: "A = Arr a" "nrows a = r" "ncols a = c"
    by (rule has_shape_Arr)
  from assms(3) a have "At = Arr (tabulate2 c r (\<lambda>i j. a ! j ! i))" by simp
  with assms(2) show ?thesis by (simp only: has_shape_tabulate2)
qed

lemma inv_shape:
  assumes "shape_preserving minv" "has_shape n n S" "linalg_inv minv S = Inr Si"
  shows "has_shape n n Si"
proof -
  from assms(2) obtain m where m: "S = Arr m" "nrows m = n" "ncols m = n"
    by (rule has_shape_Arr)
  from assms(3) m obtain mi where "minv m = Some mi" "Si = Arr mi"
    by (auto split: option.splits if_splits)
  with assms(1) m show ?thesis by (auto simp: shape_preserving_def simp del: has_shape.simps)
qed


lemma predict_conforms:
  assumes c: "conforms s" and p: "predict (Num 0) s = (Inr (), s')"
  shows "conforms s'"
proof -
  let ?n = "nat (dim_x s)"
  from c have n: "0 < ?n" by (simp add: conforms_def)
  from c have x: "has_shape ?n 1 (self_x s)" and P: "has_shape ?n ?n (self_P s)"
    and F: "has_shape ?n ?n (self_F s)" and Q: "has_shape ?n ?n (self_Q s)"
    and B: "case self_B s of Num b \<Rightarrow> True | Arr m \<Rightarrow> has_shape ?n 1 (Arr m)"
    by (simp_all add: conforms_def)
  from p obtain Fx Bu x' Ft PFt FPFt aFPFt P' where
    1: "dot (self_F s) (self_x s) = Inr Fx" and 2: "dot (self_B s) (Num 0) = Inr Bu" and
    3: "np_add Fx Bu = Inr x'" and 4: "arr_T (self_F s) = Inr Ft" and
    5: "dot (self_P s) Ft = Inr PFt" and 6: "dot (self_F s) PFt = Inr FPFt" and
    7: "np_mul (Num (alpha_sq s)) FPFt = Inr aFPFt" and 8: "np_add aFPFt (self_Q s) = Inr P'" and
    s': "s' = s\<lparr>self_x := x', self_P := P'\<rparr>"
    by (auto simp: predict_def dot3_def Let_def split: sum.splits)
  from F x n 1 have Fx: "has_shape ?n 1 Fx" by (rule dot_shape)
  have x': "has_shape ?n 1 x'"
  proof (cases "self_B s")
    case (Num b)
    with 2 obtain q where "Bu = Num q" by auto
    with 3 have "elementwise (\<lambda>a b. a + b) Fx (Num q) = Inr x'" by (simp add: np_add_def)
    with Fx show ?thesis by (rule elementwise_Num_shape)
  next
    case (Arr m)
    with B have "has_shape ?n 1 (self_B s)" by simp
    from this 2 have Bu: "has_shape ?n 1 Bu" by (rule dot_Num_shape)
    from Fx Bu n 3 [unfolded np_add_def] show ?thesis by (rule elementwise_shape)
  qed
  from F n 4 have Ft: "has_shape ?n ?n Ft" by (rule T_shape)
  from P Ft n 5 have "has_shape ?n ?n PFt" by (rule dot_shape)
  from F this n 6 have "has_shape ?n ?n FPFt" by (rule dot_shape)
  from this 7 [unfolded np_mul_def] have "has_shape ?n ?n aFPFt"
    by (rule Num_elementwise_shape)
  from this Q n 8 [unfolded np_add_def] have P': "has_shape ?n ?n P'"
    by (rule elementwise_shape)
  from c x' P' show ?thesis
    unfolding s' by (simp add: conforms_def split: ndarray.splits del: has_shape.simps)
qed


lemma resolve_R_shape:
  assumes "has_shape dz dz (self_R s)" "noise_ok dz R" "dz = nat (dim_z s)"
    "resolve_R R s = Inr Rv" "0 < dz"
  shows "has_shape dz dz Rv"
proof (cases R)
  case None
  with assms show ?thesis by simp
next
  case (Some a)
  show ?thesis
  proof (cases a)
    case (Num r)
    with Some assms(4) obtain E where E: "eye (dim_z s) = Inr E"
      and m: "elementwise (\<lambda>a b. a * b) E (Num r) = Inr Rv"
      by (auto simp: np_mul_def split: sum.splits)
    from E have E': "E = Arr (tabulate2 dz dz (\<lambda>i j. if i = j then 1 else 0))"
      by (auto simp: eye_def assms(3) split: if_splits)
    from m [unfolded E'] have "Rv = Arr (tabulate2 dz dz (\<lambda>i j. (if i = j then 1 else 0) * r))"
      by (simp add: map_map_tabulate2)
    with assms(5) show ?thesis by (simp only: has_shape_tabulate2)
  next
    case (Arr m)
    with Some assms(2,4) show ?thesis by auto
  qed
qed

lemma update_conforms:
  assumes c: "conforms s" and m: "shape_preserving minv"
    and z: "measurement_ok (nat (dim_z s)) z" and R: "noise_ok (nat (dim_z s)) R"
    and u: "update minv z R s = (Inr (), s')"
  shows "conforms s'"
proof (cases z)
  case None
  with u c show ?thesis by (simp add: update_def)
next
  case (Some zv)
  let ?n = "nat (dim_x s)"
  let ?k = "nat (dim_z s)"
  from c have n: "0 < ?n" and k: "0 < ?k" by (simp_all add: conforms_def)
  from c have x: "has_shape ?n 1 (self_x s)" and P: "has_shape ?n ?n (self_P s)"
    and I: "has_shape ?n ?n (self_I s)" and H: "has_shape ?k ?n (self_H s)"
    and Rs: "has_shape ?k ?k (self_R s)"
    by (simp_all add: conforms_def)
  from z Some have zv: "has_shape ?k 1 zv" by simp
  from u Some obtain Rv Hx y Ht PHt HPHt S Si HtSi K Ky x' KH I_KH I_KHt PIt J Kt RKt KRKt P' where
    r: "resolve_R R s = Inr Rv" and
    1: "dot (self_H s) (self_x s) = Inr Hx" and 2: "np_sub zv Hx = Inr y" and
    3: "arr_T (self_H s) = Inr Ht" and 4: "dot (self_P s) Ht = Inr PHt" and
    5: "dot (self_H s) PHt = Inr HPHt" and 6: "np_add HPHt Rv = Inr S" and
    7: "linalg_inv minv S = Inr Si" and 8: "dot Ht Si = Inr HtSi" and
    9: "dot (self_P s) HtSi = Inr K" and 10: "dot K y = Inr Ky" and
    11: "np_add (self_x s) Ky = Inr x'" and 12: "dot K (self_H s) = Inr KH" and
    13: "np_sub (self_I s) KH = Inr I_KH" and 14: "arr_T I_KH = Inr I_KHt" and
    15: "dot (self_P s) I_KHt = Inr PIt" and 16: "dot I_KH PIt = Inr J" and
    17: "arr_T K = Inr Kt" and 18: "dot Rv Kt = Inr RKt" and 19: "dot K RKt = Inr KRKt" and
    20: "np_add J KRKt = Inr P'" and
    s': "s' = s\<lparr>self_y := y, self_x := x', self_P := P', self_S := S, self_K := K\<rparr>"
    by (auto simp: update_def dot3_def Let_def split: sum.splits)
  from Rs R refl r k have Rv: "has_shape ?k ?k Rv" by (rule resolve_R_shape)
  from H x k 1 have Hx: "has_shape ?k 1 Hx" by (rule dot_shape)
  from zv Hx k 2 [unfolded np_sub_def] have y: "has_shape ?k 1 y" by (rule elementwise_shape)
  from H n 3 have Ht: "has_shape ?n ?k Ht" by (rule T_shape)
  from P Ht n 4 have "has_shape ?n ?k PHt" by (rule dot_shape)
  from H this k 5 have "has_shape ?k ?k HPHt" by (rule dot_shape)
  from this Rv k 6 [unfolded np_add_def] have "has_shape ?k ?k S" by (rule elementwise_shape)
  from m this 7 have "has_shape ?k ?k Si" by (rule inv_shape)
  from Ht this n 8 have "has_shape ?n ?k HtSi" by (rule dot_shape)
  from P this n 9 have K: "has_shape ?n ?k K" by (rule dot_shape)
  from K y n 10 have "has_shape ?n 1 Ky" by (rule dot_shape)
  from x this n 11 [unfolded np_add_def] have x': "has_shape ?n 1 x'" by (rule elementwise_shape)
  from K H n 12 have "has_shape ?n ?n KH" by (rule dot_shape)
  from I this n 13 [unfolded np_sub_def] have IKH: "has_shape ?n ?n I_KH" by (rule elementwise_shape)
  from IKH n 14 have "has_shape ?n ?n I_KHt" by (rule T_shape)
  from P this n 15 have "has_shape ?n ?n PIt" by (rule dot_shape)
  from IKH this n 16 have J: "has_shape ?n ?n J" by (rule dot_shape)
  from K k 17 have Kt: "has_shape ?k ?n Kt" by (rule T_shape)
  from Rv Kt k 18 have "has_shape ?k ?n RKt" by (rule dot_shape)
  from K this n 19 have "has_shape ?n ?n KRKt" by (rule dot_shape)
  from J this n 20 [unfolded np_add_def] have P': "has_shape ?n ?n P'" by (rule elementwise_shape)
  from c x' P' show ?thesis
    unfolding s' by (simp add: conforms_def split: ndarray.splits del: has_shape.simps)
qed

lemma conforms_has_shape:
  "conforms s \<Longrightarrow>
   has_shape (nat (dim_x s)) 1 (self_x s) \<and> has_shape (nat (dim_x s)) (nat (dim_x s)) (self_P s)"
  by (simp add: conforms_def)

lemma predict_dim_z: "predict u s = (r, s') \<Longrightarrow> dim_z s' = dim_z s"
  using predict_frame by blast

lemma update_dim_z: "update minv z R s = (r, s') \<Longrightarrow> dim_z s' = dim_z s"
  using update_frame by blast

lemma predict_update_conforms:
  assumes "conforms s" "shape_preserving minv"
    "measurement_ok (nat (dim_z s)) z" "noise_ok (nat (dim_z s)) R"
    "predict (Num 0) s = (Inr (), sp)" "update minv z R sp = (Inr (), su)"
  shows "conforms sp \<and> conforms su \<and> dim_z su = dim_z s \<and> dim_x sp = dim_x s \<and> dim_x su = dim_x s"
proof -
  from assms(1,5) have sp: "conforms sp" by (rule predict_conforms)
  from assms(5) have zp: "dim_z sp = dim_z s" by (rule predict_dim_z)
  from assms(5) have xp: "dim_x sp = dim_x s" by (rule predict_dim_x)
  from assms(3,4) zp have "measurement_ok (nat (dim_z sp)) z" "noise_ok (nat (dim_z sp)) R"
    by simp_all
  with sp assms(2) have su: "conforms su" using assms(6) by (rule update_conforms)
  from assms(6) have "dim_z su = dim_z sp" "dim_x su = dim_x sp"
    by (rule update_dim_z, rule update_dim_x)
  with sp su zp xp show ?thesis by simp
qed

lemma update_predict_conforms:
  assumes "conforms s" "shape_preserving minv"
    "measurement_ok (nat (dim_z s)) z" "noise_ok (nat (dim_z s)) R"
    "update minv z R s = (Inr (), su)" "predict (Num 0) su = (Inr (), sp)"
  shows "conforms su \<and> conforms sp \<and> dim_z sp = dim_z s \<and> dim_x su = dim_x s \<and> dim_x sp = dim_x s"
proof -
  from assms(1,2,3,4,5) have su: "conforms su" by (rule update_conforms)
  from assms(5) have zu: "dim_z su = dim_z s" and xu: "dim_x su = dim_x s"
    by (rule update_dim_z, rule update_dim_x)
  from su assms(6) have sp: "conforms sp" by (rule predict_conforms)
  from assms(6) have "dim_z sp = dim_z su" "dim_x sp = dim_x su"
    by (rule predict_dim_z, rule predict_dim_x)
  with sp su zu xu show ?thesis by simp
qed

lemma manual_predict_update_conforms:
  assumes "manual_predict_update minv zrs s = (Inr (), s')" "conforms s" "shape_preserving minv"
    "list_all (\<lambda>(z, R). measurement_ok (nat (dim_z s)) z \<and> noise_ok (nat (dim_z s)) R) zrs"
  shows "conforms s' \<and> dim_z s' = dim_z s \<and> dim_x s' = dim_x s"
  using assms
proof (induction zrs arbitrary: s)
  case Nil
  then show ?case by simp
next
  case (Cons a zrs)
  obtain z R where a: "a = (z, R)" by (cases a)
  from Cons.prems(1) a obtain sp su where
    p: "predict (Num 0) s = (Inr (), sp)" and u: "update minv z R sp = (Inr (), su)" and
    rest: "manual_predict_update minv zrs su = (Inr (), s')"
    by (auto split: prod.splits sum.splits)
  from Cons.prems(4) a have ok: "measurement_ok (nat (dim_z s)) z" "noise_ok (nat (dim_z s)) R"
    and oks: "list_all (\<lambda>(z, R). measurement_ok (nat (dim_z s)) z \<and> noise_ok (nat (dim_z s)) R) zrs"
    by simp_all
  from predict_update_conforms [OF Cons.prems(2,3) ok p u]
  have su: "conforms su" and zu: "dim_z su = dim_z s" and xu: "dim_x su = dim_x s"
    by simp_all
  from oks zu have
    "list_all (\<lambda>(z, R). measurement_ok (nat (dim_z su)) z \<and> noise_ok (nat (dim_z su)) R) zrs"
    by simp
  from Cons.IH [OF rest su Cons.prems(3) this] zu xu show ?case by simp
qed

lemma manual_update_predict_conforms:
  assumes "manual_update_predict minv zrs s = (Inr (), s')" "conforms s" "shape_preserving minv"
    "list_all (\<lambda>(z, R). measurement_ok (nat (dim_z s)) z \<and> noise_ok (nat (dim_z s)) R) zrs"
  shows "conforms s' \<and> dim_z s' = dim_z s \<and> dim_x s' = dim_x s"
  using assms
proof (induction zrs arbitrary: s)
  case Nil
  then show ?case by simp
next
  case (Cons a zrs)
  obtain z R where a: "a = (z, R)" by (cases a)
  from Cons.prems(1) a obtain su sp where
    u: "update minv z R s = (Inr (), su)" and p: "predict (Num 0) su = (Inr (), sp)" and
    rest: "manual_update_predict minv zrs sp = (Inr (), s')"
    by (auto split: prod.splits sum.splits)
  from Cons.prems(4) a have ok: "measurement_ok (nat (dim_z s)) z" "noise_ok (nat (dim_z s)) R"
    and oks: "list_all (\<lambda>(z, R). measurement_ok (nat (dim_z s)) z \<and> noise_ok (nat (dim_z s)) R) zrs"
    by simp_all
  from update_predict_conforms [OF Cons.prems(2,3) ok u p]
  have sp: "conforms sp" and zp: "dim_z sp = dim_z s" and xp: "dim_x sp = dim_x s"
    by simp_all
  from oks zp have
    "list_all (\<lambda>(z, R). measurement_ok (nat (dim_z sp)) z \<and> noise_ok (nat (dim_z sp)) R) zrs"
    by simp
  from Cons.IH [OF rest sp Cons.prems(3) this] zp xp show ?case by simp
qed



subsection \<open>The formulas of update and predict\<close>

text \<open>
  On arrays of matching shapes numpy's operations are the matrix operations of the
  specification.
\<close>

lemma has_shape_rows:
  assumes "has_shape r c (Arr m)"
  shows "nrows m = r" "ncols m = c" "\<And>i. i < r \<Longrightarrow> length (m ! i) = c"
  using assms by (auto simp: nrows_def list_all_length)

lemma bget_nth:
  assumes "has_shape r c (Arr m)" "i < r" "j < c"
  shows "bget m i j = m ! i ! j"
  using assms by (auto simp: bget_def bidx_def)

lemma dot_matmul:
  assumes "has_shape r k (Arr a)" "has_shape k c (Arr b)"
  shows "dot (Arr a) (Arr b) = Inr (Arr (matmul a b))"
  using assms by simp

lemma matmul_shape:
  assumes "has_shape r k (Arr a)" "has_shape k c (Arr b)" "0 < r"
  shows "has_shape r c (Arr (matmul a b))"
  using dot_shape [OF assms dot_matmul [OF assms(1,2)]] .

lemma np_add_mat_add:
  assumes "has_shape r c (Arr a)" "has_shape r c (Arr b)"
  shows "np_add (Arr a) (Arr b) = Inr (Arr (mat_add a b))"
proof -
  have "tabulate2 r c (\<lambda>i j. bget a i j + bget b i j) = tabulate2 r c (\<lambda>i j. a ! i ! j + b ! i ! j)"
    by (rule tabulate2_cong) (simp add: bget_nth [OF assms(1)] bget_nth [OF assms(2)])
  then show ?thesis
    using has_shape_rows(1,2) [OF assms(1)] has_shape_rows(1,2) [OF assms(2)]
    by (simp add: np_add_def mat_add_def bdim_def)
qed

lemma np_sub_mat_sub:
  assumes "has_shape r c (Arr a)" "has_shape r c (Arr b)"
  shows "np_sub (Arr a) (Arr b) = Inr (Arr (mat_sub a b))"
proof -
  have "tabulate2 r c (\<lambda>i j. bget a i j - bget b i j) = tabulate2 r c (\<lambda>i j. a ! i ! j - b ! i ! j)"
    by (rule tabulate2_cong) (simp add: bget_nth [OF assms(1)] bget_nth [OF assms(2)])
  then show ?thesis
    using has_shape_rows(1,2) [OF assms(1)] has_shape_rows(1,2) [OF assms(2)]
    by (simp add: np_sub_def mat_sub_def bdim_def)
qed

lemma mat_add_shape:
  assumes "has_shape r c (Arr a)" "0 < r"
  shows "has_shape r c (Arr (mat_add a b))"
  using has_shape_rows(1,2) [OF assms(1)] has_shape_tabulate2 [OF assms(2)]
  by (simp only: mat_add_def)

lemma mat_sub_shape:
  assumes "has_shape r c (Arr a)" "0 < r"
  shows "has_shape r c (Arr (mat_sub a b))"
  using has_shape_rows(1,2) [OF assms(1)] has_shape_tabulate2 [OF assms(2)]
  by (simp only: mat_sub_def)


lemma arr_T_mat_T: "arr_T (Arr a) = Inr (Arr (mat_T a))"
  by (simp add: mat_T_def)

lemma mat_T_shape:
  assumes "has_shape r c (Arr a)" "0 < c"
  shows "has_shape c r (Arr (mat_T a))"
  using T_shape [OF assms arr_T_mat_T] .




lemma linalg_inv_square:
  assumes "has_shape n n (Arr m)"
  shows "linalg_inv minv (Arr m) =
     (case minv m of None \<Rightarrow> Inl LinAlgError | Some mi \<Rightarrow> Inr (Arr mi))"
  using has_shape_rows(1,2) [OF assms] by simp


lemma resolve_R_value:
  assumes "has_shape k k (self_R s)" "noise_ok k R" "k = nat (dim_z s)" "0 < k"
  defines "Rv \<equiv> (case R of None \<Rightarrow> rows_of (self_R s)
                    | Some (Num r) \<Rightarrow> mat_scale r (mat_identity k)
                    | Some (Arr m) \<Rightarrow> m)"
  shows "resolve_R R s = Inr (Arr Rv) \<and> has_shape k k (Arr Rv)"
proof (cases R)
  case None
  from assms(1) obtain m where "self_R s = Arr m" by (rule has_shape_Arr)
  with None assms(1) show ?thesis by (simp add: Rv_def)
next
  case (Some a)
  show ?thesis
  proof (cases a)
    case (Num r)
    have "mat_scale r (mat_identity k) = tabulate2 k k (\<lambda>i j. r * (if i = j then 1 else 0))"
      unfolding mat_scale_def mat_identity_def using assms(4)
      by (simp add: nrows_tabulate2 ncols_tabulate2)
         (rule tabulate2_cong, simp add: tabulate2_nth)
    also have "\<dots> = map (map (\<lambda>v. v * r)) (tabulate2 k k (\<lambda>i j. if i = j then 1 else 0))"
      unfolding map_map_tabulate2 by (rule tabulate2_cong) simp
    finally have e: "mat_scale r (mat_identity k) =
        map (map (\<lambda>v. v * r)) (tabulate2 k k (\<lambda>i j. if i = j then 1 else 0))" .
    have "has_shape k k (Arr (mat_scale r (mat_identity k)))"
      unfolding mat_scale_def mat_identity_def using assms(4)
      by (simp only: nrows_tabulate2 ncols_tabulate2 has_shape_tabulate2)
    with e Some Num assms(3,4) show ?thesis
      by (simp add: Rv_def eye_def np_mul_def del: has_shape.simps)
  next
    case (Arr m)
    with Some assms(2) show ?thesis by (simp add: Rv_def)
  qed
qed

lemma update_on_model:
  assumes fields: "self_H s = Arr H" "self_x s = Arr x0" "self_P s = Arr P0" "self_I s = Arr I"
    and R: "resolve_R R s = Inr (Arr Rv)"
    and shapes: "has_shape k n (Arr H)" "has_shape n 1 (Arr x0)" "has_shape n n (Arr P0)"
      "has_shape n n (Arr I)" "has_shape k k (Arr Rv)" "has_shape k 1 (Arr z)"
    and pos: "0 < n" "0 < k"
  defines "y \<equiv> mat_sub z (matmul H x0)"
    and "S \<equiv> mat_add (matmul H (matmul P0 (mat_T H))) Rv"
  shows "minv S = None \<Longrightarrow>
           update minv (Some (Arr z)) R s = (Inl LinAlgError, s\<lparr>self_y := Arr y\<rparr>)"
    and "minv S = Some Si \<Longrightarrow> has_shape k k (Arr Si) \<Longrightarrow>
           update minv (Some (Arr z)) R s =
             (Inr (), s\<lparr>self_y := Arr y,
                self_x := Arr (mat_add x0 (matmul (matmul P0 (matmul (mat_T H) Si)) y)),
                self_P := Arr (mat_add
                  (matmul (mat_sub I (matmul (matmul P0 (matmul (mat_T H) Si)) H))
                     (matmul P0 (mat_T (mat_sub I (matmul (matmul P0 (matmul (mat_T H) Si)) H)))))
                  (matmul (matmul P0 (matmul (mat_T H) Si))
                     (matmul Rv (mat_T (matmul P0 (matmul (mat_T H) Si)))))),
                self_S := Arr S, self_K := Arr (matmul P0 (matmul (mat_T H) Si))\<rparr>)"
proof -
  note [simp del] = has_shape.simps dot.simps arr_T.simps linalg_inv.simps
  note H = shapes(1) and x0 = shapes(2) and P0 = shapes(3) and I = shapes(4)
    and Rv = shapes(5) and z = shapes(6)
  note n = pos(1) and k = pos(2)
  have Hx: "has_shape k 1 (Arr (matmul H x0))" using H x0 k by (rule matmul_shape)
  have e1: "dot (Arr H) (Arr x0) = Inr (Arr (matmul H x0))" using H x0 by (rule dot_matmul)
  have e2: "np_sub (Arr z) (Arr (matmul H x0)) = Inr (Arr y)"
    unfolding y_def using z Hx by (rule np_sub_mat_sub)
  have ysh: "has_shape k 1 (Arr y)" unfolding y_def using z k by (rule mat_sub_shape)
  have Ht: "has_shape n k (Arr (mat_T H))" using H n by (rule mat_T_shape)
  have e4: "dot (Arr P0) (Arr (mat_T H)) = Inr (Arr (matmul P0 (mat_T H)))"
    using P0 Ht by (rule dot_matmul)
  have PHt: "has_shape n k (Arr (matmul P0 (mat_T H)))" using P0 Ht n by (rule matmul_shape)
  have e5: "dot (Arr H) (Arr (matmul P0 (mat_T H))) = Inr (Arr (matmul H (matmul P0 (mat_T H))))"
    using H PHt by (rule dot_matmul)
  have HPHt: "has_shape k k (Arr (matmul H (matmul P0 (mat_T H))))"
    using H PHt k by (rule matmul_shape)
  have e6: "np_add (Arr (matmul H (matmul P0 (mat_T H)))) (Arr Rv) = Inr (Arr S)"
    unfolding S_def using HPHt Rv by (rule np_add_mat_add)
  have Ssh: "has_shape k k (Arr S)" unfolding S_def using HPHt k by (rule mat_add_shape)
  note e7 = linalg_inv_square [OF Ssh, of minv]
  show "update minv (Some (Arr z)) R s = (Inl LinAlgError, s\<lparr>self_y := Arr y\<rparr>)"
    if "minv S = None"
    using that by (simp add: update_def Let_def dot3_def fields R e1 e2 arr_T_mat_T e4 e5 e6 e7)
  show "update minv (Some (Arr z)) R s =
             (Inr (), s\<lparr>self_y := Arr y,
                self_x := Arr (mat_add x0 (matmul (matmul P0 (matmul (mat_T H) Si)) y)),
                self_P := Arr (mat_add
                  (matmul (mat_sub I (matmul (matmul P0 (matmul (mat_T H) Si)) H))
                     (matmul P0 (mat_T (mat_sub I (matmul (matmul P0 (matmul (mat_T H) Si)) H)))))
                  (matmul (matmul P0 (matmul (mat_T H) Si))
                     (matmul Rv (mat_T (matmul P0 (matmul (mat_T H) Si)))))),
                self_S := Arr S, self_K := Arr (matmul P0 (matmul (mat_T H) Si))\<rparr>)"
    if Si: "minv S = Some Si" and Sish: "has_shape k k (Arr Si)"
  proof -
    let ?K = "matmul P0 (matmul (mat_T H) Si)"
    let ?IKH = "mat_sub I (matmul ?K H)"
    have e8: "dot (Arr (mat_T H)) (Arr Si) = Inr (Arr (matmul (mat_T H) Si))"
      using Ht Sish by (rule dot_matmul)
    have HtSi: "has_shape n k (Arr (matmul (mat_T H) Si))" using Ht Sish n by (rule matmul_shape)
    have e9: "dot (Arr P0) (Arr (matmul (mat_T H) Si)) = Inr (Arr ?K)"
      using P0 HtSi by (rule dot_matmul)
    have K: "has_shape n k (Arr ?K)" using P0 HtSi n by (rule matmul_shape)
    have e10: "dot (Arr ?K) (Arr y) = Inr (Arr (matmul ?K y))" using K ysh by (rule dot_matmul)
    have Ky: "has_shape n 1 (Arr (matmul ?K y))" using K ysh n by (rule matmul_shape)
    have e11: "np_add (Arr x0) (Arr (matmul ?K y)) = Inr (Arr (mat_add x0 (matmul ?K y)))"
      using x0 Ky by (rule np_add_mat_add)
    have e12: "dot (Arr ?K) (Arr H) = Inr (Arr (matmul ?K H))" using K H by (rule dot_matmul)
    have KH: "has_shape n n (Arr (matmul ?K H))" using K H n by (rule matmul_shape)
    have e13: "np_sub (Arr I) (Arr (matmul ?K H)) = Inr (Arr ?IKH)"
      using I KH by (rule np_sub_mat_sub)
    have IKH: "has_shape n n (Arr ?IKH)" using I n by (rule mat_sub_shape)
    have IKHt: "has_shape n n (Arr (mat_T ?IKH))" using IKH n by (rule mat_T_shape)
    have e15: "dot (Arr P0) (Arr (mat_T ?IKH)) = Inr (Arr (matmul P0 (mat_T ?IKH)))"
      using P0 IKHt by (rule dot_matmul)
    have PIt: "has_shape n n (Arr (matmul P0 (mat_T ?IKH)))" using P0 IKHt n by (rule matmul_shape)
    have e16: "dot (Arr ?IKH) (Arr (matmul P0 (mat_T ?IKH))) =
        Inr (Arr (matmul ?IKH (matmul P0 (mat_T ?IKH))))"
      using IKH PIt by (rule dot_matmul)
    have J: "has_shape n n (Arr (matmul ?IKH (matmul P0 (mat_T ?IKH))))"
      using IKH PIt n by (rule matmul_shape)
    have Kt: "has_shape k n (Arr (mat_T ?K))" using K k by (rule mat_T_shape)
    have e18: "dot (Arr Rv) (Arr (mat_T ?K)) = Inr (Arr (matmul Rv (mat_T ?K)))"
      using Rv Kt by (rule dot_matmul)
    have RKt: "has_shape k n (Arr (matmul Rv (mat_T ?K)))" using Rv Kt k by (rule matmul_shape)
    have e19: "dot (Arr ?K) (Arr (matmul Rv (mat_T ?K))) =
        Inr (Arr (matmul ?K (matmul Rv (mat_T ?K))))"
      using K RKt by (rule dot_matmul)
    have KRKt: "has_shape n n (Arr (matmul ?K (matmul Rv (mat_T ?K))))"
      using K RKt n by (rule matmul_shape)
    have e20: "np_add (Arr (matmul ?IKH (matmul P0 (mat_T ?IKH))))
        (Arr (matmul ?K (matmul Rv (mat_T ?K)))) =
        Inr (Arr (mat_add (matmul ?IKH (matmul P0 (mat_T ?IKH)))
                          (matmul ?K (matmul Rv (mat_T ?K)))))"
      using J KRKt by (rule np_add_mat_add)
    show ?thesis
      using Si
      by (simp add: update_def Let_def dot3_def fields R e1 e2 arr_T_mat_T e4 e5 e6 e7
            e8 e9 e10 e11 e12 e13 e15 e16 e18 e19 e20)
  qed
qed






lemmas mat_defs = mat_add_def mat_sub_def mat_scale_def mat_T_def mat_identity_def

text \<open>
  C1. A call \<open>update(z, R)\<close> with \<open>z\<close> not \<open>None\<close> resolves \<open>R\<close> (\<open>None\<close>: the
  stored \<open>R\<close>; a scalar \<open>r\<close>: \<open>r\<close> times the \<open>dim_z\<close> identity; an array: itself)
  and, with \<open>x0\<close>, \<open>P0\<close> the state and covariance before the call, sets
  \<open>y = z - H\<cdot>x0\<close>, \<open>S = H\<cdot>P0\<cdot>H\<^sup>T + R\<close>, \<open>K = P0\<cdot>H\<^sup>T\<cdot>inv(S)\<close>, \<open>x = x0 + K\<cdot>y\<close> and
  \<open>P = (I - K\<cdot>H)\<cdot>P0\<cdot>(I - K\<cdot>H)\<^sup>T + K\<cdot>R\<cdot>K\<^sup>T\<close>, storing \<open>S\<close>, \<open>K\<close> and \<open>y\<close>; no
  other field changes. The first part states this of every call that returns, with
  numpy's operations. The second part states it with the matrix operations of the
  specification, for a filter whose \<open>x\<close>, \<open>P\<close>, \<open>I\<close>, \<open>H\<close>, \<open>R\<close> have the shapes of
  the data model, a column \<open>z\<close> of \<open>dim_z\<close> entries and \<open>R\<close> absent, a scalar or a
  \<open>dim_z \<times> dim_z\<close> array: the call returns with exactly these values when the
  inverse routine returns an inverse \<open>Si\<close> of \<open>S\<close>, and raises \<open>LinAlgError\<close>, having
  stored \<open>y\<close> only, when the routine finds \<open>S\<close> singular. \<open>I\<close> is the content of the
  field \<open>I\<close>, which the constructor sets to the identity.
\<close>

theorem update_measurement_formulas:
  "(update minv (Some z) R s = (Inr (), s') \<longrightarrow>
    (\<exists>Rv Hx y Ht HPHt S Si K Ky x' KH I_KH I_KHt J Kt KRKt P'.
     (case R of
        None \<Rightarrow> Rv = self_R s
      | Some (Num r) \<Rightarrow>
          0 \<le> dim_z s \<and>
          Rv = Arr (tabulate2 (nat (dim_z s)) (nat (dim_z s)) (\<lambda>i j. if i = j then r else 0))
      | Some (Arr m) \<Rightarrow> Rv = Arr m) \<and>
     dot (self_H s) (self_x s) = Inr Hx \<and> np_sub z Hx = Inr y \<and>
     arr_T (self_H s) = Inr Ht \<and> dot3 (self_H s) (self_P s) Ht = Inr HPHt \<and>
     np_add HPHt Rv = Inr S \<and>
     linalg_inv minv S = Inr Si \<and> dot3 (self_P s) Ht Si = Inr K \<and>
     dot K y = Inr Ky \<and> np_add (self_x s) Ky = Inr x' \<and>
     dot K (self_H s) = Inr KH \<and> np_sub (self_I s) KH = Inr I_KH \<and>
     arr_T I_KH = Inr I_KHt \<and> dot3 I_KH (self_P s) I_KHt = Inr J \<and>
     arr_T K = Inr Kt \<and> dot3 K Rv Kt = Inr KRKt \<and> np_add J KRKt = Inr P' \<and>
     s' = s\<lparr>self_y := y, self_x := x', self_P := P', self_S := S, self_K := K\<rparr>)) \<and>
   (measurement_model s \<and> has_shape (nat (dim_z s)) 1 z \<and> noise_ok (nat (dim_z s)) R \<and>
    H = rows_of (self_H s) \<and> x0 = rows_of (self_x s) \<and> P0 = rows_of (self_P s) \<and>
    I = rows_of (self_I s) \<and>
    Rv = (case R of None \<Rightarrow> rows_of (self_R s)
          | Some (Num r) \<Rightarrow> mat_scale r (mat_identity (nat (dim_z s)))
          | Some (Arr m) \<Rightarrow> m) \<and>
    y = mat_sub (rows_of z) (matmul H x0) \<and>
    S = mat_add (matmul H (matmul P0 (mat_T H))) Rv \<longrightarrow>
      (minv S = None \<longrightarrow>
         update minv (Some z) R s = (Inl LinAlgError, s\<lparr>self_y := Arr y\<rparr>)) \<and>
      (minv S = Some Si \<and> has_shape (nat (dim_z s)) (nat (dim_z s)) (Arr Si) \<and>
       K = matmul P0 (matmul (mat_T H) Si) \<and> I_KH = mat_sub I (matmul K H) \<longrightarrow>
         update minv (Some z) R s =
           (Inr (), s\<lparr>self_y := Arr y,
              self_x := Arr (mat_add x0 (matmul K y)),
              self_P := Arr (mat_add (matmul I_KH (matmul P0 (mat_T I_KH)))
                                     (matmul K (matmul Rv (mat_T K)))),
              self_S := Arr S, self_K := Arr K\<rparr>)))"
  (is "?A \<and> ?B")
proof (rule conjI)
  show ?A
  proof (rule impI)
  assume a: "update minv (Some z) R s = (Inr (), s')"
  then obtain Rv where Rv: "resolve_R R s = Inr Rv"
    by (auto simp: update_def split: sum.splits)
  have res: "(case R of
        None \<Rightarrow> Rv = self_R s
      | Some (Num r) \<Rightarrow>
          0 \<le> dim_z s \<and>
          Rv = Arr (tabulate2 (nat (dim_z s)) (nat (dim_z s)) (\<lambda>i j. if i = j then r else 0))
      | Some (Arr m) \<Rightarrow> Rv = Arr m)"
    using Rv
    by (auto simp: eye_def np_mul_def scalar_times_eye split: option.splits ndarray.splits if_splits)
  from a Rv res show "\<exists>Rv Hx y Ht HPHt S Si K Ky x' KH I_KH I_KHt J Kt KRKt P'.
     (case R of
        None \<Rightarrow> Rv = self_R s
      | Some (Num r) \<Rightarrow>
          0 \<le> dim_z s \<and>
          Rv = Arr (tabulate2 (nat (dim_z s)) (nat (dim_z s)) (\<lambda>i j. if i = j then r else 0))
      | Some (Arr m) \<Rightarrow> Rv = Arr m) \<and>
     dot (self_H s) (self_x s) = Inr Hx \<and> np_sub z Hx = Inr y \<and>
     arr_T (self_H s) = Inr Ht \<and> dot3 (self_H s) (self_P s) Ht = Inr HPHt \<and>
     np_add HPHt Rv = Inr S \<and>
     linalg_inv minv S = Inr Si \<and> dot3 (self_P s) Ht Si = Inr K \<and>
     dot K y = Inr Ky \<and> np_add (self_x s) Ky = Inr x' \<and>
     dot K (self_H s) = Inr KH \<and> np_sub (self_I s) KH = Inr I_KH \<and>
     arr_T I_KH = Inr I_KHt \<and> dot3 I_KH (self_P s) I_KHt = Inr J \<and>
     arr_T K = Inr Kt \<and> dot3 K Rv Kt = Inr KRKt \<and> np_add J KRKt = Inr P' \<and>
     s' = s\<lparr>self_y := y, self_x := x', self_P := P', self_S := S, self_K := K\<rparr>"
    by (auto simp: update_def Let_def split: sum.splits)
  qed
next
  show ?B
  proof (rule impI, rule conjI)
  assume b: "measurement_model s \<and> has_shape (nat (dim_z s)) 1 z \<and> noise_ok (nat (dim_z s)) R \<and>
    H = rows_of (self_H s) \<and> x0 = rows_of (self_x s) \<and> P0 = rows_of (self_P s) \<and>
    I = rows_of (self_I s) \<and>
    Rv = (case R of None \<Rightarrow> rows_of (self_R s)
          | Some (Num r) \<Rightarrow> mat_scale r (mat_identity (nat (dim_z s)))
          | Some (Arr m) \<Rightarrow> m) \<and>
    y = mat_sub (rows_of z) (matmul H x0) \<and>
    S = mat_add (matmul H (matmul P0 (mat_T H))) Rv"
  let ?n = "nat (dim_x s)" and ?k = "nat (dim_z s)"
  from b have pos: "0 < ?n" "0 < ?k"
    and sh: "has_shape ?n 1 (self_x s)" "has_shape ?n ?n (self_P s)" "has_shape ?n ?n (self_I s)"
      "has_shape ?k ?n (self_H s)" "has_shape ?k ?k (self_R s)" "has_shape ?k 1 z"
    and R: "noise_ok ?k R"
    by (simp_all add: measurement_model_def del: has_shape.simps)
  from b have d: "H = rows_of (self_H s)" "x0 = rows_of (self_x s)" "P0 = rows_of (self_P s)"
    "I = rows_of (self_I s)"
    and Rv: "Rv = (case R of None \<Rightarrow> rows_of (self_R s)
          | Some (Num r) \<Rightarrow> mat_scale r (mat_identity ?k)
          | Some (Arr m) \<Rightarrow> m)"
    and y: "y = mat_sub (rows_of z) (matmul H x0)"
    and S: "S = mat_add (matmul H (matmul P0 (mat_T H))) Rv"
    by blast+
  from sh(1) d(2) have x0: "self_x s = Arr x0" by (cases "self_x s") simp_all
  from sh(2) d(3) have P0: "self_P s = Arr P0" by (cases "self_P s") simp_all
  from sh(3) d(4) have I: "self_I s = Arr I" by (cases "self_I s") simp_all
  from sh(4) d(1) have H: "self_H s = Arr H" by (cases "self_H s") simp_all
  from sh(6) obtain zr where zm: "z = Arr zr" by (rule has_shape_Arr)
  from y zm have y: "y = mat_sub zr (matmul H x0)" by simp
  from resolve_R_value [OF sh(5) R refl pos(2)]
  have rv: "resolve_R R s = Inr (Arr Rv)" and rsh: "has_shape ?k ?k (Arr Rv)"
    unfolding Rv by simp_all
  note u = update_on_model [OF H x0 P0 I rv sh(4) [unfolded H] sh(1) [unfolded x0]
      sh(2) [unfolded P0] sh(3) [unfolded I] rsh sh(6) [unfolded zm], of minv,
      folded y S]
  show "minv S = None \<longrightarrow>
         update minv (Some z) R s = (Inl LinAlgError, s\<lparr>self_y := Arr y\<rparr>)"
    using u(1) [OF pos] by (simp add: zm)
  show "minv S = Some Si \<and> has_shape (nat (dim_z s)) (nat (dim_z s)) (Arr Si) \<and>
       K = matmul P0 (matmul (mat_T H) Si) \<and> I_KH = mat_sub I (matmul K H) \<longrightarrow>
         update minv (Some z) R s =
           (Inr (), s\<lparr>self_y := Arr y,
              self_x := Arr (mat_add x0 (matmul K y)),
              self_P := Arr (mat_add (matmul I_KH (matmul P0 (mat_T I_KH)))
                                     (matmul K (matmul Rv (mat_T K)))),
              self_S := Arr S, self_K := Arr K\<rparr>)"
    using u(2) [OF pos, of Si] by (auto simp add: zm simp del: has_shape.simps)
  qed
qed

theorem update_measurement_formulas_witness:
  "measurement_model control_example \<and>
   has_shape (nat (dim_z control_example)) 1 (Arr [[4]]) \<and>
   noise_ok (nat (dim_z control_example)) (Some (Num 2)) \<and>
   noise_ok (nat (dim_z control_example)) (Some (Arr [[- 2]])) \<and>
   inv_1x1 [[4]] = Some [[1 / 4]] \<and> inv_1x1 [[0]] = None \<and>
   update inv_1x1 (Some (Arr [[4]])) (Some (Num 2)) control_example =
     (Inr (), control_example\<lparr>self_y := Arr [[3]], self_x := Arr [[5 / 2], [11 / 4]],
        self_P := Arr [[1, 1 / 2], [1 / 2, 7 / 4]], self_S := Arr [[4]],
        self_K := Arr [[1 / 2], [1 / 4]]\<rparr>) \<and>
   update inv_1x1 (Some (Arr [[4]])) (Some (Arr [[- 2]])) control_example =
     (Inl LinAlgError, control_example\<lparr>self_y := Arr [[3]]\<rparr>) \<and>
   (\<exists>S Si K. linalg_inv inv_1x1 S = Inr Si \<and>
      dot3 (self_P control_example) (Arr [[1], [0]]) Si = Inr K \<and>
      control_example\<lparr>self_y := Arr [[3]], self_x := Arr [[5 / 2], [11 / 4]],
        self_P := Arr [[1, 1 / 2], [1 / 2, 7 / 4]], self_S := Arr [[4]],
        self_K := Arr [[1 / 2], [1 / 4]]\<rparr> =
      control_example\<lparr>self_y := Arr [[3]], self_x := Arr [[5 / 2], [11 / 4]],
        self_P := Arr [[1, 1 / 2], [1 / 2, 7 / 4]], self_S := S, self_K := K\<rparr>)"
proof -
  let ?s' = "control_example\<lparr>self_y := Arr [[3]], self_x := Arr [[5 / 2], [11 / 4]],
        self_P := Arr [[1, 1 / 2], [1 / 2, 7 / 4]], self_S := Arr [[4]],
        self_K := Arr [[1 / 2], [1 / 4]]\<rparr>"
  have m: "measurement_model control_example"
    "has_shape (nat (dim_z control_example)) 1 (Arr [[4]])"
    "noise_ok (nat (dim_z control_example)) (Some (Num 2))"
    "noise_ok (nat (dim_z control_example)) (Some (Arr [[- 2]]))"
    "inv_1x1 [[4]] = Some [[1 / 4]]" "inv_1x1 [[0]] = None"
    by (simp_all add: measurement_model_def control_example_def nrows_def ncols_def)
  note t = update_measurement_formulas [where minv = inv_1x1 and z = "Arr [[4]]"
      and s = control_example and s' = ?s' and H = "[[1, 0]]" and ?x0.0 = "[[1], [2]]"
      and ?P0.0 = "[[2, 1], [1, 2]]" and I = "[[1, 0], [0, 1]]" and y = "[[3]]"]
  from t [where R = "Some (Num 2)" and Rv = "[[2]]" and S = "[[4]]" and Si = "[[1 / 4]]"
      and K = "[[1 / 2], [1 / 4]]" and I_KH = "[[1 / 2, 0], [- 1 / 4, 1]]", THEN conjunct2] m
  have r: "update inv_1x1 (Some (Arr [[4]])) (Some (Num 2)) control_example = (Inr (), ?s')"
    by (simp add: control_example_def mat_defs eval_defs numeral_2_eq_2)
  from t [where R = "Some (Arr [[- 2]])" and Rv = "[[- 2]]" and S = "[[0]]", THEN conjunct2] m
  have e: "update inv_1x1 (Some (Arr [[4]])) (Some (Arr [[- 2]])) control_example =
     (Inl LinAlgError, control_example\<lparr>self_y := Arr [[3]]\<rparr>)"
    by (simp add: control_example_def mat_defs eval_defs numeral_2_eq_2)
  from t [where R = "Some (Num 2)", THEN conjunct1, THEN mp, OF r]
  obtain Rv Hx y Ht HPHt S Si K Ky x' KH I_KH I_KHt J Kt KRKt P'
    where a: "arr_T (self_H control_example) = Inr Ht"
      "linalg_inv inv_1x1 S = Inr Si" "dot3 (self_P control_example) Ht Si = Inr K"
      "?s' = control_example\<lparr>self_y := y, self_x := x', self_P := P', self_S := S, self_K := K\<rparr>"
    by blast
  from a(1) have Ht: "Ht = Arr [[1], [0]]"
    by (simp add: control_example_def eval_defs numeral_2_eq_2)
  from arg_cong [OF a(4), of self_y] arg_cong [OF a(4), of self_x] arg_cong [OF a(4), of self_P]
  have "y = Arr [[3]]" "x' = Arr [[5 / 2], [11 / 4]]" "P' = Arr [[1, 1 / 2], [1 / 2, 7 / 4]]"
    by simp_all
  with a Ht have "\<exists>S Si K. linalg_inv inv_1x1 S = Inr Si \<and>
      dot3 (self_P control_example) (Arr [[1], [0]]) Si = Inr K \<and>
      ?s' = control_example\<lparr>self_y := Arr [[3]], self_x := Arr [[5 / 2], [11 / 4]],
        self_P := Arr [[1, 1 / 2], [1 / 2, 7 / 4]], self_S := S, self_K := K\<rparr>"
    by blast
  with m r e show ?thesis by blast
qed




subsection \<open>The batch driver\<close>

lemma loop_predict_first_step:
  assumes "loop_predict_first minv dx i ((z, r) # zrs) (ms, cs, mps, cps) s = (Inr out, s')"
  shows "\<exists>s1 s2 wxp wPp wx wP.
     predict (Num 0) s = (Inr (), s1) \<and> update minv z r s1 = (Inr (), s2) \<and>
     i < length ms \<and> i < length cs \<and> i < length mps \<and> i < length cps \<and>
     broadcast_to dx 1 (self_x s1) = Inr wxp \<and> broadcast_to dx dx (self_P s1) = Inr wPp \<and>
     broadcast_to dx 1 (self_x s2) = Inr wx \<and> broadcast_to dx dx (self_P s2) = Inr wP \<and>
     loop_predict_first minv dx (Suc i) zrs
       (ms[i := wx], cs[i := wP], mps[i := wxp], cps[i := wPp]) s2 = (Inr out, s')"
  using assms
  by (auto simp: setitem_def split: sum.splits prod.splits if_splits)


lemma loop_predict_first_records:
  assumes "loop_predict_first minv dx i zrs (ms, cs, mps, cps) s = (Inr (ms', cs', mps', cps'), s')"
  shows "(length ms' = length ms \<and> length cs' = length cs \<and>
          length mps' = length mps \<and> length cps' = length cps) \<and>
         (\<forall>j<i. ms' ! j = ms ! j \<and> cs' ! j = cs ! j \<and> mps' ! j = mps ! j \<and> cps' ! j = cps ! j) \<and>
         manual_predict_update minv zrs s = (Inr (), s') \<and>
         (\<forall>k<length zrs. \<exists>sb sp su.
            manual_predict_update minv (take k zrs) s = (Inr (), sb) \<and>
            predict (Num 0) sb = (Inr (), sp) \<and>
            update minv (fst (zrs ! k)) (snd (zrs ! k)) sp = (Inr (), su) \<and>
            manual_predict_update minv (take (Suc k) zrs) s = (Inr (), su) \<and>
            broadcast_to dx 1 (self_x sp) = Inr (mps' ! (i + k)) \<and>
            broadcast_to dx dx (self_P sp) = Inr (cps' ! (i + k)) \<and>
            broadcast_to dx 1 (self_x su) = Inr (ms' ! (i + k)) \<and>
            broadcast_to dx dx (self_P su) = Inr (cs' ! (i + k)))"
  using assms
proof (induction zrs arbitrary: i ms cs mps cps s)
  case Nil
  then show ?case by simp
next
  case (Cons a zrs)
  obtain z r where a: "a = (z, r)" by (cases a)
  from loop_predict_first_step [OF Cons.prems [unfolded a]]
  obtain s1 s2 wxp wPp wx wP where
    p: "predict (Num 0) s = (Inr (), s1)" and u: "update minv z r s1 = (Inr (), s2)" and
    len: "i < length ms" "i < length cs" "i < length mps" "i < length cps" and
    b: "broadcast_to dx 1 (self_x s1) = Inr wxp" "broadcast_to dx dx (self_P s1) = Inr wPp"
       "broadcast_to dx 1 (self_x s2) = Inr wx" "broadcast_to dx dx (self_P s2) = Inr wP" and
    rec: "loop_predict_first minv dx (Suc i) zrs
       (ms[i := wx], cs[i := wP], mps[i := wxp], cps[i := wPp]) s2 = (Inr (ms', cs', mps', cps'), s')"
    by blast
  note ih = Cons.IH [OF rec]
  from ih have lens: "length ms' = length ms" "length cs' = length cs"
      "length mps' = length mps" "length cps' = length cps"
    by simp_all
  from ih have keep: "\<And>j. j < Suc i \<Longrightarrow>
      ms' ! j = (ms[i := wx]) ! j \<and> cs' ! j = (cs[i := wP]) ! j \<and>
      mps' ! j = (mps[i := wxp]) ! j \<and> cps' ! j = (cps[i := wPp]) ! j"
    by blast
  have at_i: "ms' ! i = wx" "cs' ! i = wP" "mps' ! i = wxp" "cps' ! i = wPp"
    using keep [of i] len by simp_all
  have below: "\<forall>j<i. ms' ! j = ms ! j \<and> cs' ! j = cs ! j \<and> mps' ! j = mps ! j \<and> cps' ! j = cps ! j"
    using keep by (simp add: less_Suc_eq)
  from ih have man: "manual_predict_update minv (a # zrs) s = (Inr (), s')"
    using p u a by simp
  have steps: "\<exists>sb sp su.
            manual_predict_update minv (take k (a # zrs)) s = (Inr (), sb) \<and>
            predict (Num 0) sb = (Inr (), sp) \<and>
            update minv (fst ((a # zrs) ! k)) (snd ((a # zrs) ! k)) sp = (Inr (), su) \<and>
            manual_predict_update minv (take (Suc k) (a # zrs)) s = (Inr (), su) \<and>
            broadcast_to dx 1 (self_x sp) = Inr (mps' ! (i + k)) \<and>
            broadcast_to dx dx (self_P sp) = Inr (cps' ! (i + k)) \<and>
            broadcast_to dx 1 (self_x su) = Inr (ms' ! (i + k)) \<and>
            broadcast_to dx dx (self_P su) = Inr (cs' ! (i + k))"
    if k: "k < length (a # zrs)" for k
  proof (cases k)
    case 0
    show ?thesis
      unfolding 0 using p u a b at_i
      by (intro exI [of _ s] exI [of _ s1] exI [of _ s2]) simp
  next
    case (Suc k')
    with k have "k' < length zrs" by simp
    with ih obtain sb sp su where
      "manual_predict_update minv (take k' zrs) s2 = (Inr (), sb)"
      "predict (Num 0) sb = (Inr (), sp)"
      "update minv (fst (zrs ! k')) (snd (zrs ! k')) sp = (Inr (), su)"
      "manual_predict_update minv (take (Suc k') zrs) s2 = (Inr (), su)"
      "broadcast_to dx 1 (self_x sp) = Inr (mps' ! (Suc i + k'))"
      "broadcast_to dx dx (self_P sp) = Inr (cps' ! (Suc i + k'))"
      "broadcast_to dx 1 (self_x su) = Inr (ms' ! (Suc i + k'))"
      "broadcast_to dx dx (self_P su) = Inr (cs' ! (Suc i + k'))"
      by blast
    then show ?thesis
      unfolding Suc using p u a
      by (intro exI [of _ sb] exI [of _ sp] exI [of _ su]) simp
  qed
  from lens below man steps show ?case by blast
qed

lemma loop_update_first_step:
  assumes "loop_update_first minv dx i ((z, r) # zrs) (ms, cs, mps, cps) s = (Inr out, s')"
  shows "\<exists>s1 s2 wx wP wxp wPp.
     update minv z r s = (Inr (), s1) \<and> predict (Num 0) s1 = (Inr (), s2) \<and>
     i < length ms \<and> i < length cs \<and> i < length mps \<and> i < length cps \<and>
     broadcast_to dx 1 (self_x s1) = Inr wx \<and> broadcast_to dx dx (self_P s1) = Inr wP \<and>
     broadcast_to dx 1 (self_x s2) = Inr wxp \<and> broadcast_to dx dx (self_P s2) = Inr wPp \<and>
     loop_update_first minv dx (Suc i) zrs
       (ms[i := wx], cs[i := wP], mps[i := wxp], cps[i := wPp]) s2 = (Inr out, s')"
  using assms
  by (auto simp: setitem_def split: sum.splits prod.splits if_splits)

lemma loop_update_first_records:
  assumes "loop_update_first minv dx i zrs (ms, cs, mps, cps) s = (Inr (ms', cs', mps', cps'), s')"
  shows "(length ms' = length ms \<and> length cs' = length cs \<and>
          length mps' = length mps \<and> length cps' = length cps) \<and>
         (\<forall>j<i. ms' ! j = ms ! j \<and> cs' ! j = cs ! j \<and> mps' ! j = mps ! j \<and> cps' ! j = cps ! j) \<and>
         manual_update_predict minv zrs s = (Inr (), s') \<and>
         (\<forall>k<length zrs. \<exists>sb sp su.
            manual_update_predict minv (take k zrs) s = (Inr (), sb) \<and>
            update minv (fst (zrs ! k)) (snd (zrs ! k)) sb = (Inr (), su) \<and>
            predict (Num 0) su = (Inr (), sp) \<and>
            manual_update_predict minv (take (Suc k) zrs) s = (Inr (), sp) \<and>
            broadcast_to dx 1 (self_x sp) = Inr (mps' ! (i + k)) \<and>
            broadcast_to dx dx (self_P sp) = Inr (cps' ! (i + k)) \<and>
            broadcast_to dx 1 (self_x su) = Inr (ms' ! (i + k)) \<and>
            broadcast_to dx dx (self_P su) = Inr (cs' ! (i + k)))"
  using assms
proof (induction zrs arbitrary: i ms cs mps cps s)
  case Nil
  then show ?case by simp
next
  case (Cons a zrs)
  obtain z r where a: "a = (z, r)" by (cases a)
  from loop_update_first_step [OF Cons.prems [unfolded a]]
  obtain s1 s2 wx wP wxp wPp where
    u: "update minv z r s = (Inr (), s1)" and p: "predict (Num 0) s1 = (Inr (), s2)" and
    len: "i < length ms" "i < length cs" "i < length mps" "i < length cps" and
    b: "broadcast_to dx 1 (self_x s1) = Inr wx" "broadcast_to dx dx (self_P s1) = Inr wP"
       "broadcast_to dx 1 (self_x s2) = Inr wxp" "broadcast_to dx dx (self_P s2) = Inr wPp" and
    rec: "loop_update_first minv dx (Suc i) zrs
       (ms[i := wx], cs[i := wP], mps[i := wxp], cps[i := wPp]) s2 = (Inr (ms', cs', mps', cps'), s')"
    by blast
  note ih = Cons.IH [OF rec]
  from ih have lens: "length ms' = length ms" "length cs' = length cs"
      "length mps' = length mps" "length cps' = length cps"
    by simp_all
  from ih have keep: "\<And>j. j < Suc i \<Longrightarrow>
      ms' ! j = (ms[i := wx]) ! j \<and> cs' ! j = (cs[i := wP]) ! j \<and>
      mps' ! j = (mps[i := wxp]) ! j \<and> cps' ! j = (cps[i := wPp]) ! j"
    by blast
  have at_i: "ms' ! i = wx" "cs' ! i = wP" "mps' ! i = wxp" "cps' ! i = wPp"
    using keep [of i] len by simp_all
  have below: "\<forall>j<i. ms' ! j = ms ! j \<and> cs' ! j = cs ! j \<and> mps' ! j = mps ! j \<and> cps' ! j = cps ! j"
    using keep by (simp add: less_Suc_eq)
  from ih have man: "manual_update_predict minv (a # zrs) s = (Inr (), s')"
    using p u a by simp
  have steps: "\<exists>sb sp su.
            manual_update_predict minv (take k (a # zrs)) s = (Inr (), sb) \<and>
            update minv (fst ((a # zrs) ! k)) (snd ((a # zrs) ! k)) sb = (Inr (), su) \<and>
            predict (Num 0) su = (Inr (), sp) \<and>
            manual_update_predict minv (take (Suc k) (a # zrs)) s = (Inr (), sp) \<and>
            broadcast_to dx 1 (self_x sp) = Inr (mps' ! (i + k)) \<and>
            broadcast_to dx dx (self_P sp) = Inr (cps' ! (i + k)) \<and>
            broadcast_to dx 1 (self_x su) = Inr (ms' ! (i + k)) \<and>
            broadcast_to dx dx (self_P su) = Inr (cs' ! (i + k))"
    if k: "k < length (a # zrs)" for k
  proof (cases k)
    case 0
    show ?thesis
      unfolding 0 using p u a b at_i
      by (intro exI [of _ s] exI [of _ s2] exI [of _ s1]) simp
  next
    case (Suc k')
    with k have "k' < length zrs" by simp
    with ih obtain sb sp su where
      "manual_update_predict minv (take k' zrs) s2 = (Inr (), sb)"
      "update minv (fst (zrs ! k')) (snd (zrs ! k')) sb = (Inr (), su)"
      "predict (Num 0) su = (Inr (), sp)"
      "manual_update_predict minv (take (Suc k') zrs) s2 = (Inr (), sp)"
      "broadcast_to dx 1 (self_x sp) = Inr (mps' ! (Suc i + k'))"
      "broadcast_to dx dx (self_P sp) = Inr (cps' ! (Suc i + k'))"
      "broadcast_to dx 1 (self_x su) = Inr (ms' ! (Suc i + k'))"
      "broadcast_to dx dx (self_P su) = Inr (cs' ! (Suc i + k'))"
      by blast
    then show ?thesis
      unfolding Suc using p u a
      by (intro exI [of _ sb] exI [of _ sp] exI [of _ su]) simp
  qed
  from lens below man steps show ?case by blast
qed

lemma batch_filter_unfold:
  assumes "accepts zs" "0 \<le> dim_x s"
  shows "batch_filter accepts minv zs Rs update_first s =
      (if update_first
        then loop_update_first minv (nat (dim_x s)) 0 (zip zs (default_Rs (length zs) Rs))
               (replicate (length zs) (Arr (tabulate2 (nat (dim_x s)) 1 (\<lambda>i j. 0))),
                replicate (length zs) (Arr (tabulate2 (nat (dim_x s)) (nat (dim_x s)) (\<lambda>i j. 0))),
                replicate (length zs) (Arr (tabulate2 (nat (dim_x s)) 1 (\<lambda>i j. 0))),
                replicate (length zs) (Arr (tabulate2 (nat (dim_x s)) (nat (dim_x s)) (\<lambda>i j. 0)))) s
        else loop_predict_first minv (nat (dim_x s)) 0 (zip zs (default_Rs (length zs) Rs))
               (replicate (length zs) (Arr (tabulate2 (nat (dim_x s)) 1 (\<lambda>i j. 0))),
                replicate (length zs) (Arr (tabulate2 (nat (dim_x s)) (nat (dim_x s)) (\<lambda>i j. 0))),
                replicate (length zs) (Arr (tabulate2 (nat (dim_x s)) 1 (\<lambda>i j. 0))),
                replicate (length zs) (Arr (tabulate2 (nat (dim_x s)) (nat (dim_x s)) (\<lambda>i j. 0)))) s)"
  using assms by (simp add: batch_filter_def np_size0_def Let_def zeros3_def)

lemma batch_filter_returns:
  assumes "batch_filter accepts minv zs Rs update_first s = (Inr out, s')"
  shows "accepts zs \<and> 0 \<le> dim_x s"
  using assms
  by (auto simp: batch_filter_def np_size0_def Let_def zeros3_def split: sum.splits if_splits)

lemma batch_filter_rejects:
  "\<not> accepts zs \<Longrightarrow> batch_filter accepts minv zs Rs update_first s = (Inl ValueError, s)"
  by (simp add: batch_filter_def np_size0_def)

lemma zip_noise_list:
  assumes "Rs = None \<and> rs = replicate (length zs) None \<or> Rs = Some rs \<and> length zs \<le> length rs"
  shows "zip zs (default_Rs (length zs) Rs) = zip zs rs"
    and "length (zip zs rs) = length zs"
    and "i < length zs \<Longrightarrow> zip zs rs ! i = (zs ! i, rs ! i)"
  using assms by (auto simp: default_Rs_def)

lemma inputs_ok_zip_take:
  assumes "list_all A zs" "list_all B (take (length zs) rs)"
  shows "list_all (\<lambda>(z, R). A z \<and> B R) (zip zs rs)"
  using assms
proof (induction zs arbitrary: rs)
  case Nil
  then show ?case by simp
next
  case (Cons z zs)
  then show ?case by (cases rs) simp_all
qed






text \<open>What a returning run has recorded, for the two orders of the step.\<close>

lemma records_predict_first:
  assumes b: "batch_filter accepts minv zs Rs False s =
             (Inr (means, covariances, means_p, covariances_p), s')"
    and R: "Rs = None \<and> rs = replicate (length zs) None \<or> Rs = Some rs \<and> length zs \<le> length rs"
  shows "length means = length zs \<and> length covariances = length zs \<and>
     length means_p = length zs \<and> length covariances_p = length zs \<and>
     manual_predict_update minv (zip zs rs) s = (Inr (), s') \<and>
     (\<forall>i<length zs. \<exists>sb sp su.
        manual_predict_update minv (take i (zip zs rs)) s = (Inr (), sb) \<and>
        predict (Num 0) sb = (Inr (), sp) \<and>
        update minv (zs ! i) (rs ! i) sp = (Inr (), su) \<and>
        manual_predict_update minv (take (Suc i) (zip zs rs)) s = (Inr (), su) \<and>
        broadcast_to (nat (dim_x s)) 1 (self_x sp) = Inr (means_p ! i) \<and>
        broadcast_to (nat (dim_x s)) (nat (dim_x s)) (self_P sp) = Inr (covariances_p ! i) \<and>
        broadcast_to (nat (dim_x s)) 1 (self_x su) = Inr (means ! i) \<and>
        broadcast_to (nat (dim_x s)) (nat (dim_x s)) (self_P su) = Inr (covariances ! i))"
proof -
  let ?dx = "nat (dim_x s)"
  note z = zip_noise_list [OF R]
  from batch_filter_returns [OF b] have "accepts zs" "0 \<le> dim_x s" by simp_all
  from b [unfolded batch_filter_unfold [where accepts = accepts and zs = zs, OF this] if_False z(1)]
  have l: "loop_predict_first minv ?dx 0 (zip zs rs)
               (replicate (length zs) (Arr (tabulate2 ?dx 1 (\<lambda>i j. 0))),
                replicate (length zs) (Arr (tabulate2 ?dx ?dx (\<lambda>i j. 0))),
                replicate (length zs) (Arr (tabulate2 ?dx 1 (\<lambda>i j. 0))),
                replicate (length zs) (Arr (tabulate2 ?dx ?dx (\<lambda>i j. 0)))) s
             = (Inr (means, covariances, means_p, covariances_p), s')" .
  note r = loop_predict_first_records [OF l]
  from r have lens: "length means = length zs" "length covariances = length zs"
      "length means_p = length zs" "length covariances_p = length zs"
    and man: "manual_predict_update minv (zip zs rs) s = (Inr (), s')"
    by simp_all
  have "\<exists>sb sp su.
        manual_predict_update minv (take i (zip zs rs)) s = (Inr (), sb) \<and>
        predict (Num 0) sb = (Inr (), sp) \<and>
        update minv (zs ! i) (rs ! i) sp = (Inr (), su) \<and>
        manual_predict_update minv (take (Suc i) (zip zs rs)) s = (Inr (), su) \<and>
        broadcast_to ?dx 1 (self_x sp) = Inr (means_p ! i) \<and>
        broadcast_to ?dx ?dx (self_P sp) = Inr (covariances_p ! i) \<and>
        broadcast_to ?dx 1 (self_x su) = Inr (means ! i) \<and>
        broadcast_to ?dx ?dx (self_P su) = Inr (covariances ! i)"
    if i: "i < length zs" for i
  proof -
    from i z(2) have "i < length (zip zs rs)" by simp
    with r obtain sb sp su where
      "manual_predict_update minv (take i (zip zs rs)) s = (Inr (), sb)"
      "predict (Num 0) sb = (Inr (), sp)"
      "update minv (fst (zip zs rs ! i)) (snd (zip zs rs ! i)) sp = (Inr (), su)"
      "manual_predict_update minv (take (Suc i) (zip zs rs)) s = (Inr (), su)"
      "broadcast_to ?dx 1 (self_x sp) = Inr (means_p ! (0 + i))"
      "broadcast_to ?dx ?dx (self_P sp) = Inr (covariances_p ! (0 + i))"
      "broadcast_to ?dx 1 (self_x su) = Inr (means ! (0 + i))"
      "broadcast_to ?dx ?dx (self_P su) = Inr (covariances ! (0 + i))"
      by blast
    with z(3) [OF i] show ?thesis
      by (intro exI [of _ sb] exI [of _ sp] exI [of _ su]) simp
  qed
  with lens man show ?thesis by blast
qed

lemma records_update_first:
  assumes b: "batch_filter accepts minv zs Rs True s =
             (Inr (means, covariances, means_p, covariances_p), s')"
    and R: "Rs = None \<and> rs = replicate (length zs) None \<or> Rs = Some rs \<and> length zs \<le> length rs"
  shows "length means = length zs \<and> length covariances = length zs \<and>
     length means_p = length zs \<and> length covariances_p = length zs \<and>
     manual_update_predict minv (zip zs rs) s = (Inr (), s') \<and>
     (\<forall>i<length zs. \<exists>sb sp su.
        manual_update_predict minv (take i (zip zs rs)) s = (Inr (), sb) \<and>
        update minv (zs ! i) (rs ! i) sb = (Inr (), su) \<and>
        predict (Num 0) su = (Inr (), sp) \<and>
        manual_update_predict minv (take (Suc i) (zip zs rs)) s = (Inr (), sp) \<and>
        broadcast_to (nat (dim_x s)) 1 (self_x sp) = Inr (means_p ! i) \<and>
        broadcast_to (nat (dim_x s)) (nat (dim_x s)) (self_P sp) = Inr (covariances_p ! i) \<and>
        broadcast_to (nat (dim_x s)) 1 (self_x su) = Inr (means ! i) \<and>
        broadcast_to (nat (dim_x s)) (nat (dim_x s)) (self_P su) = Inr (covariances ! i))"
proof -
  let ?dx = "nat (dim_x s)"
  note z = zip_noise_list [OF R]
  from batch_filter_returns [OF b] have "accepts zs" "0 \<le> dim_x s" by simp_all
  from b [unfolded batch_filter_unfold [where accepts = accepts and zs = zs, OF this] if_True z(1)]
  have l: "loop_update_first minv ?dx 0 (zip zs rs)
               (replicate (length zs) (Arr (tabulate2 ?dx 1 (\<lambda>i j. 0))),
                replicate (length zs) (Arr (tabulate2 ?dx ?dx (\<lambda>i j. 0))),
                replicate (length zs) (Arr (tabulate2 ?dx 1 (\<lambda>i j. 0))),
                replicate (length zs) (Arr (tabulate2 ?dx ?dx (\<lambda>i j. 0)))) s
             = (Inr (means, covariances, means_p, covariances_p), s')" .
  note r = loop_update_first_records [OF l]
  from r have lens: "length means = length zs" "length covariances = length zs"
      "length means_p = length zs" "length covariances_p = length zs"
    and man: "manual_update_predict minv (zip zs rs) s = (Inr (), s')"
    by simp_all
  have "\<exists>sb sp su.
        manual_update_predict minv (take i (zip zs rs)) s = (Inr (), sb) \<and>
        update minv (zs ! i) (rs ! i) sb = (Inr (), su) \<and>
        predict (Num 0) su = (Inr (), sp) \<and>
        manual_update_predict minv (take (Suc i) (zip zs rs)) s = (Inr (), sp) \<and>
        broadcast_to ?dx 1 (self_x sp) = Inr (means_p ! i) \<and>
        broadcast_to ?dx ?dx (self_P sp) = Inr (covariances_p ! i) \<and>
        broadcast_to ?dx 1 (self_x su) = Inr (means ! i) \<and>
        broadcast_to ?dx ?dx (self_P su) = Inr (covariances ! i)"
    if i: "i < length zs" for i
  proof -
    from i z(2) have "i < length (zip zs rs)" by simp
    with r obtain sb sp su where
      "manual_update_predict minv (take i (zip zs rs)) s = (Inr (), sb)"
      "update minv (fst (zip zs rs ! i)) (snd (zip zs rs ! i)) sb = (Inr (), su)"
      "predict (Num 0) su = (Inr (), sp)"
      "manual_update_predict minv (take (Suc i) (zip zs rs)) s = (Inr (), sp)"
      "broadcast_to ?dx 1 (self_x sp) = Inr (means_p ! (0 + i))"
      "broadcast_to ?dx ?dx (self_P sp) = Inr (covariances_p ! (0 + i))"
      "broadcast_to ?dx 1 (self_x su) = Inr (means ! (0 + i))"
      "broadcast_to ?dx ?dx (self_P su) = Inr (covariances ! (0 + i))"
      by blast
    with z(3) [OF i] show ?thesis
      by (intro exI [of _ sb] exI [of _ sp] exI [of _ su]) simp
  qed
  with lens man show ?thesis by blast
qed


lemma shape_preserving_inv_1x1: "shape_preserving inv_1x1"
  unfolding shape_preserving_def
  by (auto elim!: inv_1x1.elims simp: nrows_def ncols_def split: if_splits)

lemma scenario_conforms: "conforms (scenario_state a)"
  by (simp add: conforms_def scenario_state_def nrows_def ncols_def)

lemmas run_defs = batch_filter_def np_size0_def default_Rs_def zeros3_def setitem_def Let_def
  scenario_updated_def predict_def update_def scenario_state_def eval_defs numeral_2_eq_2




lemma run_predict_first_long:
  "batch_filter homogeneous inv_1x1 [Some (Arr [[1]]), Some (Arr [[3]])]
      (Some [None, Some (Num 2), None]) False (scenario_state 4) =
     (Inr ([Arr [[4 / 5]], Arr [[28 / 13]]], [Arr [[4 / 5]], Arr [[16 / 13]]],
           [Arr [[0]], Arr [[4 / 5]]], [Arr [[4]], Arr [[16 / 5]]]), predict_first_final)"
  by (simp add: run_defs predict_first_final_def)

lemma run_update_first_absent:
  "batch_filter homogeneous inv_1x1 [Some (Arr [[1]]), Some (Arr [[3]])] None True
      (scenario_state 4) =
     (Inr ([Arr [[1 / 2]], Arr [[13 / 6]]], [Arr [[1 / 2]], Arr [[2 / 3]]],
           [Arr [[1 / 2]], Arr [[13 / 6]]], [Arr [[2]], Arr [[8 / 3]]]), stored_noise_final)"
  by (simp add: run_defs stored_noise_final_def)







text \<open>
  C10. The sentence fails in two ways. \<open>zip(zs, Rs)\<close> stops at the shorter sequence:
  with two measurements and one noise argument only the first step runs, and the
  entries at index 1 are the zeros of the allocation, not the stored \<open>x\<close> and \<open>P\<close>.
  And the entries are broadcast copies: on the filter whose \<open>x\<close> has one entry although
  \<open>dim_x = 2\<close> the last predicted mean is \<open>[[5], [5]]\<close> and the stored \<open>x\<close> is
  \<open>[[5]]\<close>.
\<close>

theorem batch_filter_final_state_counterexample:
  "batch_filter homogeneous inv_1x1 [Some (Arr [[1]]), Some (Arr [[1]])] (Some [None]) False
      (scenario_state 1) =
     (Inr ([Arr [[1 / 2]], Arr [[0]]], [Arr [[1 / 2]], Arr [[0]]],
           [Arr [[0]], Arr [[0]]], [Arr [[1]], Arr [[0]]]), scenario_updated) \<and>
   self_x scenario_updated = Arr [[1 / 2]] \<and> self_P scenario_updated = Arr [[1 / 2]] \<and>
   [Arr [[1 / 2]], Arr [[0]]] ! (length [Some (Arr [[1]]), Some (Arr [[1]])] - 1) \<noteq>
     self_x scenario_updated \<and>
   batch_filter homogeneous inv_1x1 [None] None True misshaped_example =
     (Inr ([Arr [[5], [5]]], [Arr [[1, 1], [1, 1]]], [Arr [[5], [5]]], [Arr [[1, 1], [1, 1]]]),
      misshaped_example) \<and>
   self_x misshaped_example = Arr [[5]] \<and> self_P misshaped_example = Arr [[1]] \<and>
   [Arr [[5], [5]]] ! (length [None :: ndarray option] - 1) \<noteq> self_x misshaped_example"
  by (simp add: run_defs misshaped_example_def)

text \<open>
  C10, as amended. \<open>batch_filter\<close> leaves the filter in the state that the manual
  sequence of calls reaches. After it returns on a non-empty \<open>zs\<close>, with \<open>Rs\<close> absent
  or at least as long as \<open>zs\<close>, the last entries of the means outputs
  (\<open>update_first = False\<close>) or of the predictions outputs (\<open>update_first = True\<close>) are
  the copies of the stored \<open>x\<close> and \<open>P\<close>: equal to them when they have the shapes
  \<open>(dim_x, 1)\<close> and \<open>(dim_x, dim_x)\<close>, which they have whenever the filter and the
  inputs have the shapes of the data model.
\<close>

theorem batch_filter_final_state:
  assumes "batch_filter accepts minv zs Rs update_first s =
             (Inr (means, covariances, means_p, covariances_p), s')"
    and "zs \<noteq> []"
    and "Rs = None \<and> rs = replicate (length zs) None \<or> Rs = Some rs \<and> length zs \<le> length rs"
  shows "dim_x s' = dim_x s \<and>
     (if update_first
      then manual_update_predict minv (zip zs rs) s = (Inr (), s') \<and>
           broadcast_to (nat (dim_x s')) 1 (self_x s') = Inr (means_p ! (length zs - 1)) \<and>
           broadcast_to (nat (dim_x s')) (nat (dim_x s')) (self_P s') =
             Inr (covariances_p ! (length zs - 1)) \<and>
           (has_shape (nat (dim_x s')) 1 (self_x s') \<longrightarrow>
              means_p ! (length zs - 1) = self_x s') \<and>
           (has_shape (nat (dim_x s')) (nat (dim_x s')) (self_P s') \<longrightarrow>
              covariances_p ! (length zs - 1) = self_P s') \<and>
           (conforms s \<and> shape_preserving minv \<and>
            list_all (measurement_ok (nat (dim_z s))) zs \<and>
            list_all (noise_ok (nat (dim_z s))) (take (length zs) rs) \<longrightarrow>
              means_p ! (length zs - 1) = self_x s' \<and> covariances_p ! (length zs - 1) = self_P s')
      else manual_predict_update minv (zip zs rs) s = (Inr (), s') \<and>
           broadcast_to (nat (dim_x s')) 1 (self_x s') = Inr (means ! (length zs - 1)) \<and>
           broadcast_to (nat (dim_x s')) (nat (dim_x s')) (self_P s') =
             Inr (covariances ! (length zs - 1)) \<and>
           (has_shape (nat (dim_x s')) 1 (self_x s') \<longrightarrow>
              means ! (length zs - 1) = self_x s') \<and>
           (has_shape (nat (dim_x s')) (nat (dim_x s')) (self_P s') \<longrightarrow>
              covariances ! (length zs - 1) = self_P s') \<and>
           (conforms s \<and> shape_preserving minv \<and>
            list_all (measurement_ok (nat (dim_z s))) zs \<and>
            list_all (noise_ok (nat (dim_z s))) (take (length zs) rs) \<longrightarrow>
              means ! (length zs - 1) = self_x s' \<and> covariances ! (length zs - 1) = self_P s'))"
proof -
  let ?zrs = "zip zs rs"
  let ?dx = "nat (dim_x s)"
  let ?k = "length zs - 1"
  note z = zip_noise_list [OF assms(3)]
  from assms(2) z(2) have k: "?k < length zs" and tk: "take (Suc ?k) ?zrs = ?zrs"
    by simp_all
  have snap: "has_shape r c a \<longrightarrow> w = a" if "broadcast_to r c a = Inr w" for r c a w
    using that broadcast_to_same_shape [of r c a] by auto
  have ok: "list_all (\<lambda>(z, R). measurement_ok (nat (dim_z s)) z \<and>
          noise_ok (nat (dim_z s)) R) ?zrs"
    if "list_all (measurement_ok (nat (dim_z s))) zs"
       "list_all (noise_ok (nat (dim_z s))) (take (length zs) rs)"
    using that by (rule inputs_ok_zip_take)
  show ?thesis
  proof (cases update_first)
    case True
    from assms(1) True have bt: "batch_filter accepts minv zs Rs True s =
        (Inr (means, covariances, means_p, covariances_p), s')"
      by simp
    note r = records_update_first [OF bt assms(3)]
    from r have man: "manual_update_predict minv ?zrs s = (Inr (), s')" by simp
    note d = manual_update_predict_dim_x [OF man]
    from r k obtain t where
      "manual_update_predict minv (take (Suc ?k) ?zrs) s = (Inr (), t)"
      "broadcast_to ?dx 1 (self_x t) = Inr (means_p ! ?k)"
      "broadcast_to ?dx ?dx (self_P t) = Inr (covariances_p ! ?k)"
      by blast
    with tk man d have b:
      "broadcast_to (nat (dim_x s')) 1 (self_x s') = Inr (means_p ! ?k)"
      "broadcast_to (nat (dim_x s')) (nat (dim_x s')) (self_P s') = Inr (covariances_p ! ?k)"
      by simp_all
    note e = snap [OF b(1)] snap [OF b(2)]
    have c: "has_shape (nat (dim_x s')) 1 (self_x s') \<and>
             has_shape (nat (dim_x s')) (nat (dim_x s')) (self_P s')"
      if "conforms s" "shape_preserving minv"
         "list_all (measurement_ok (nat (dim_z s))) zs"
         "list_all (noise_ok (nat (dim_z s))) (take (length zs) rs)"
    proof -
      from manual_update_predict_conforms [OF man that(1,2) ok [OF that(3,4)]]
      have "conforms s'" by simp
      then show ?thesis by (rule conforms_has_shape)
    qed
    from e c have "conforms s \<and> shape_preserving minv \<and>
            list_all (measurement_ok (nat (dim_z s))) zs \<and>
            list_all (noise_ok (nat (dim_z s))) (take (length zs) rs) \<longrightarrow>
              means_p ! ?k = self_x s' \<and> covariances_p ! ?k = self_P s'"
      by blast
    with True man d b e show ?thesis by simp
  next
    case False
    from assms(1) False have bf: "batch_filter accepts minv zs Rs False s =
        (Inr (means, covariances, means_p, covariances_p), s')"
      by simp
    note r = records_predict_first [OF bf assms(3)]
    from r have man: "manual_predict_update minv ?zrs s = (Inr (), s')" by simp
    note d = manual_predict_update_dim_x [OF man]
    from r k obtain t where
      "manual_predict_update minv (take (Suc ?k) ?zrs) s = (Inr (), t)"
      "broadcast_to ?dx 1 (self_x t) = Inr (means ! ?k)"
      "broadcast_to ?dx ?dx (self_P t) = Inr (covariances ! ?k)"
      by blast
    with tk man d have b:
      "broadcast_to (nat (dim_x s')) 1 (self_x s') = Inr (means ! ?k)"
      "broadcast_to (nat (dim_x s')) (nat (dim_x s')) (self_P s') = Inr (covariances ! ?k)"
      by simp_all
    note e = snap [OF b(1)] snap [OF b(2)]
    have c: "has_shape (nat (dim_x s')) 1 (self_x s') \<and>
             has_shape (nat (dim_x s')) (nat (dim_x s')) (self_P s')"
      if "conforms s" "shape_preserving minv"
         "list_all (measurement_ok (nat (dim_z s))) zs"
         "list_all (noise_ok (nat (dim_z s))) (take (length zs) rs)"
    proof -
      from manual_predict_update_conforms [OF man that(1,2) ok [OF that(3,4)]]
      have "conforms s'" by simp
      then show ?thesis by (rule conforms_has_shape)
    qed
    from e c have "conforms s \<and> shape_preserving minv \<and>
            list_all (measurement_ok (nat (dim_z s))) zs \<and>
            list_all (noise_ok (nat (dim_z s))) (take (length zs) rs) \<longrightarrow>
              means ! ?k = self_x s' \<and> covariances ! ?k = self_P s'"
      by blast
    with False man d b e show ?thesis by simp
  qed
qed

theorem batch_filter_final_state_witness:
  "[Some (Arr [[1]]), Some (Arr [[3]])] \<noteq> [] \<and>
   conforms (scenario_state 4) \<and> shape_preserving inv_1x1 \<and>
   list_all (measurement_ok (nat (dim_z (scenario_state 4)))) [Some (Arr [[1]]), Some (Arr [[3]])] \<and>
   batch_filter homogeneous inv_1x1 [Some (Arr [[1]]), Some (Arr [[3]])]
      (Some [None, Some (Num 2), None]) False (scenario_state 4) =
     (Inr ([Arr [[4 / 5]], Arr [[28 / 13]]], [Arr [[4 / 5]], Arr [[16 / 13]]],
           [Arr [[0]], Arr [[4 / 5]]], [Arr [[4]], Arr [[16 / 5]]]), predict_first_final) \<and>
   manual_predict_update inv_1x1
      (zip [Some (Arr [[1]]), Some (Arr [[3]])] [None, Some (Num 2), None]) (scenario_state 4) =
     (Inr (), predict_first_final) \<and>
   self_x predict_first_final = Arr [[28 / 13]] \<and> self_P predict_first_final = Arr [[16 / 13]] \<and>
   [Arr [[4 / 5]], Arr [[28 / 13]]] ! (length [Some (Arr [[1]]), Some (Arr [[3]])] - 1) =
     self_x predict_first_final \<and>
   [Arr [[4 / 5]], Arr [[16 / 13]]] ! (length [Some (Arr [[1]]), Some (Arr [[3]])] - 1) =
     self_P predict_first_final \<and>
   batch_filter homogeneous inv_1x1 [Some (Arr [[1]]), Some (Arr [[3]])] None True
      (scenario_state 4) =
     (Inr ([Arr [[1 / 2]], Arr [[13 / 6]]], [Arr [[1 / 2]], Arr [[2 / 3]]],
           [Arr [[1 / 2]], Arr [[13 / 6]]], [Arr [[2]], Arr [[8 / 3]]]), stored_noise_final) \<and>
   manual_update_predict inv_1x1
      (zip [Some (Arr [[1]]), Some (Arr [[3]])] (replicate 2 None)) (scenario_state 4) =
     (Inr (), stored_noise_final) \<and>
   self_x stored_noise_final = Arr [[13 / 6]] \<and> self_P stored_noise_final = Arr [[8 / 3]] \<and>
   [Arr [[1 / 2]], Arr [[13 / 6]]] ! (length [Some (Arr [[1]]), Some (Arr [[3]])] - 1) =
     self_x stored_noise_final \<and>
   [Arr [[2]], Arr [[8 / 3]]] ! (length [Some (Arr [[1]]), Some (Arr [[3]])] - 1) =
     self_P stored_noise_final"
proof -
  let ?zs = "[Some (Arr [[1]]), Some (Arr [[3]])]"
  let ?rs = "[None, Some (Num 2), None]"
  let ?s = "scenario_state 4"
  have n: "?zs \<noteq> []" by simp
  have c: "conforms ?s" by (rule scenario_conforms)
  have p: "shape_preserving inv_1x1" by (rule shape_preserving_inv_1x1)
  have zo: "list_all (measurement_ok (nat (dim_z ?s))) ?zs"
    by (simp add: scenario_state_def nrows_def ncols_def)
  have ro: "list_all (noise_ok (nat (dim_z ?s))) (take (length ?zs) ?rs)"
    "list_all (noise_ok (nat (dim_z ?s))) (take (length ?zs) (replicate (length ?zs) None))"
    by simp_all
  have R1: "Some ?rs = None \<and> ?rs = replicate (length ?zs) None \<or>
           Some ?rs = Some ?rs \<and> length ?zs \<le> length ?rs"
    by simp
  have R2: "(None :: ndarray option list option) = None \<and>
             replicate (length ?zs) None = replicate (length ?zs) None \<or>
           None = Some (replicate (length ?zs) None) \<and>
             length ?zs \<le> length (replicate (length ?zs) (None :: ndarray option))"
    by simp
  have v: "self_x predict_first_final = Arr [[28 / 13]]"
    "self_P predict_first_final = Arr [[16 / 13]]"
    "self_x stored_noise_final = Arr [[13 / 6]]" "self_P stored_noise_final = Arr [[8 / 3]]"
    by (simp_all add: predict_first_final_def stored_noise_final_def)
  have l: "length ?zs = 2" by simp
  note t1 = batch_filter_final_state [where accepts = homogeneous, OF run_predict_first_long n R1,
      unfolded if_False]
  note t2 = batch_filter_final_state [where accepts = homogeneous, OF run_update_first_absent n R2,
      unfolded if_True]
  from t1 c p zo ro(1) have a:
    "manual_predict_update inv_1x1 (zip ?zs ?rs) ?s = (Inr (), predict_first_final)"
    "[Arr [[4 / 5]], Arr [[28 / 13]]] ! (length ?zs - 1) = self_x predict_first_final"
    "[Arr [[4 / 5]], Arr [[16 / 13]]] ! (length ?zs - 1) = self_P predict_first_final"
    by blast+
  from t2 c p zo ro(2) have b:
    "manual_update_predict inv_1x1 (zip ?zs (replicate (length ?zs) None)) ?s =
       (Inr (), stored_noise_final)"
    "[Arr [[1 / 2]], Arr [[13 / 6]]] ! (length ?zs - 1) = self_x stored_noise_final"
    "[Arr [[2]], Arr [[8 / 3]]] ! (length ?zs - 1) = self_P stored_noise_final"
    by blast+
  note b1 = b(1) [unfolded l]
  from n c p zo run_predict_first_long a v run_update_first_absent b1 b(2,3)
  show ?thesis by (intro conjI)
qed

end
